theory Spec2Isabelle
  imports Complex_Main "HOL-Library.Multiset"
begin

section \<open>JavaScript values\<close>

text \<open>
  The table shows rows of the form \<^verbatim>\<open>{ col1: val1, col2: val2 }\<close>. A cell value is a
  JavaScript primitive: \<^verbatim>\<open>undefined\<close>, \<^verbatim>\<open>null\<close>, a boolean, a number or a string.

  A string is a sequence of UTF-16 code units, so that \<^verbatim>\<open>s.length\<close> is the length of the
  list; the ellipsis (U+2026) and the Greek capital delta (U+0394) are one code unit each.
  A number is \<^verbatim>\<open>NaN\<close>, an infinity or a finite value; a finite double is the rational it
  denotes (the two zeros are not told apart). Comparisons of finite doubles are exact
  on these rationals; the rounding of an arithmetic result is left to the host.
\<close>

type_synonym jsstring = "nat list"

definition js :: "string \<Rightarrow> jsstring" where
  "js s = map of_char s"

definition ellipsis :: nat where
  "ellipsis = 8230"

definition Delta :: nat where
  "Delta = 916"

datatype jsnum = NaN | PosInf | NegInf | Fin rat

datatype jsval = JUndefined | JNull | JBool bool | JNum jsnum | JStr jsstring

datatype error = TypeError | RangeError | DOMException

text \<open>
  An object is its list of own properties in enumeration order: the order is what
  \<^verbatim>\<open>Object.keys\<close> and \<^verbatim>\<open>JSON.stringify\<close> follow. \<open>get\<close> is the value of an
  own property, and \<^verbatim>\<open>undefined\<close> when the object has no property of that name of
  its own.
\<close>

type_synonym jsobj = "(jsstring \<times> jsval) list"

definition get :: "jsobj \<Rightarrow> jsstring \<Rightarrow> jsval" where
  "get obj k = (case map_of obj k of None \<Rightarrow> JUndefined | Some v \<Rightarrow> v)"

text \<open>
  A plain object inherits the members of \<^verbatim>\<open>Object.prototype\<close>, and an array those of
  \<^verbatim>\<open>Array.prototype\<close> as well: a read of one of these names on an object that has no
  property of that name of its own gives the inherited member, a function (for
  \<^verbatim>\<open>__proto__\<close> the prototype object), which is truthy. The names are those of
  ECMAScript 2023 with its annex B; \<^verbatim>\<open>length\<close>, which is 0 on an empty array, is
  not among them.
\<close>

definition object_prototype_members :: "jsstring list" where
  "object_prototype_members =
     map js [''constructor'', ''__defineGetter__'', ''__defineSetter__'', ''hasOwnProperty'',
             ''__lookupGetter__'', ''__lookupSetter__'', ''isPrototypeOf'',
             ''propertyIsEnumerable'', ''toString'', ''valueOf'', ''__proto__'',
             ''toLocaleString'']"

definition array_prototype_members :: "jsstring list" where
  "array_prototype_members =
     map js [''at'', ''concat'', ''copyWithin'', ''fill'', ''find'', ''findIndex'', ''findLast'',
             ''findLastIndex'', ''lastIndexOf'', ''pop'', ''push'', ''reverse'', ''shift'',
             ''unshift'', ''slice'', ''sort'', ''splice'', ''includes'', ''indexOf'', ''join'',
             ''keys'', ''entries'', ''values'', ''forEach'', ''filter'', ''flat'', ''flatMap'',
             ''map'', ''every'', ''some'', ''reduce'', ''reduceRight'', ''toReversed'',
             ''toSorted'', ''toSpliced'', ''with'']"

text \<open>
  What the read \<^verbatim>\<open>row[col]\<close> of a row gives: the value of the row's own property, a
  member inherited from \<^verbatim>\<open>Object.prototype\<close>, or \<^verbatim>\<open>undefined\<close>.
\<close>

datatype property = Primitive jsval | Inherited jsstring

definition read :: "jsobj \<Rightarrow> jsstring \<Rightarrow> property" where
  "read obj k =
     (case map_of obj k of
        Some v \<Rightarrow> Primitive v
      | None \<Rightarrow> if k \<in> set object_prototype_members then Inherited k else Primitive JUndefined)"

subsection \<open>The component\<close>

text \<open>
  The options of the constructor, the fields of a \<^verbatim>\<open>DataTable\<close> and the header and
  body it has rendered. \<^verbatim>\<open>this.rows\<close> is a reference to the caller's array.
  \<^verbatim>\<open>this.columnNames\<close> is the configured object, or the empty array that
  \<^verbatim>\<open>options.columnNames || []\<close> puts in its place.
\<close>

type_synonym formatter = "property \<Rightarrow> jsobj \<Rightarrow> error + jsstring"

datatype column_names = EmptyArray | NamesObject "jsstring \<rightharpoonup> jsstring"

type_synonym addr = nat

type_synonym heap = "addr \<Rightarrow> jsobj list"

record th =
  th_class :: "jsstring option"
  th_column :: jsstring
  th_name :: jsstring
  th_sort :: "jsstring option"

record td =
  td_class :: "jsstring option"
  td_column :: jsstring
  td_value :: jsstring

record tr =
  tr_i :: nat
  tr_class :: "jsstring option"
  tr_cells :: "td list"

record options =
  opt_columnNames :: "(jsstring \<rightharpoonup> jsstring) option"
  opt_columns :: "jsstring list option"
  opt_pageSize :: jsval
  opt_sort :: "jsobj option"
  opt_clickableColumns :: "jsstring list option"
  opt_formatters :: "(jsstring \<rightharpoonup> formatter) option"

record datatable =
  columnNames :: column_names
  columns :: "jsstring list option"
  pageSize :: jsval
  sortOptions :: "jsobj option"
  clickableColumns :: "jsstring list"
  formatters :: "jsstring \<rightharpoonup> formatter"
  rows :: "addr option"
  renderedColumns :: "jsstring list option"
  thead :: "th list"
  tbody :: "tr list"

subsection \<open>The host\<close>

text \<open>
  What the code takes from the ECMAScript host and this repository does not define is a
  parameter of the model:
  \<^item> \<open>StringToNumber\<close>: the numeric value of a string that is not a plain run of digits;
  \<^item> \<open>NumberToString\<close>: the decimal text of a finite number;
  \<^item> \<open>roundDouble\<close>: the double nearest to an exact arithmetic result (an infinity on
    overflow);
  \<^item> \<open>nfFormat\<close>: \<^verbatim>\<open>Intl.NumberFormat("en-US", {maximumFractionDigits: p,
    minimumFractionDigits: p}).format(v)\<close>, with \<open>None\<close> for a precision left undefined;
  \<^item> \<open>toFixed2\<close>: \<^verbatim>\<open>Number.prototype.toFixed(2)\<close> of a finite number;
  \<^item> \<open>upperNonAscii\<close>: \<^verbatim>\<open>toUpperCase\<close> of a one-unit string outside ASCII;
  \<^item> \<open>functionText\<close>: the text that the built-in function of a given name converts to
    (\<^verbatim>\<open>function map() { [native code] }\<close> in most engines);
  \<^item> \<open>inheritedCall\<close>: what one of \<^verbatim>\<open>constructor\<close>, \<^verbatim>\<open>hasOwnProperty\<close>,
    \<^verbatim>\<open>__lookupGetter__\<close>, \<^verbatim>\<open>__lookupSetter__\<close>, \<^verbatim>\<open>isPrototypeOf\<close>,
    \<^verbatim>\<open>propertyIsEnumerable\<close>, \<^verbatim>\<open>toString\<close>, \<^verbatim>\<open>valueOf\<close> and
    \<^verbatim>\<open>toLocaleString\<close> of \<^verbatim>\<open>Object.prototype\<close> gives as the text of a cell when it
    is called on \<^verbatim>\<open>this.formatters\<close> with \<^verbatim>\<open>row[col]\<close> and the row, or the
    exception the call or the conversion of its result to a string raises.
\<close>

record host =
  StringToNumber :: "jsstring \<Rightarrow> jsnum"
  NumberToString :: "rat \<Rightarrow> jsstring"
  roundDouble :: "rat \<Rightarrow> jsnum"
  nfFormat :: "nat option \<Rightarrow> jsval \<Rightarrow> jsstring"
  toFixed2 :: "rat \<Rightarrow> jsstring"
  upperNonAscii :: "nat \<Rightarrow> jsstring"
  functionText :: "jsstring \<Rightarrow> jsstring"
  inheritedCall :: "jsstring \<Rightarrow> (jsstring \<rightharpoonup> formatter) \<Rightarrow> jsobj \<Rightarrow> error + jsstring"

subsection \<open>Conversions and operators\<close>

definition is_digit :: "nat \<Rightarrow> bool" where
  "is_digit c = (48 \<le> c \<and> c \<le> 57)"

fun dec_value :: "nat \<Rightarrow> jsstring \<Rightarrow> nat" where
  "dec_value acc [] = acc"
| "dec_value acc (c # cs) = dec_value (10 * acc + (c - 48)) cs"

text \<open>
  \<^verbatim>\<open>ToNumber\<close> of a string. A non-empty run of decimal digits whose value is below
  \<open>2^53\<close> denotes exactly that integer; every other string is read by the host.
\<close>

definition string_to_number :: "host \<Rightarrow> jsstring \<Rightarrow> jsnum" where
  "string_to_number H s =
     (if s \<noteq> [] \<and> list_all is_digit s \<and> dec_value 0 s < 2 ^ 53
      then Fin (of_nat (dec_value 0 s))
      else StringToNumber H s)"

fun to_number :: "host \<Rightarrow> jsval \<Rightarrow> jsnum" where
  "to_number H JUndefined = NaN"
| "to_number H JNull = Fin 0"
| "to_number H (JBool b) = (if b then Fin 1 else Fin 0)"
| "to_number H (JNum x) = x"
| "to_number H (JStr s) = string_to_number H s"

fun to_string :: "host \<Rightarrow> jsval \<Rightarrow> jsstring" where
  "to_string H JUndefined = js ''undefined''"
| "to_string H JNull = js ''null''"
| "to_string H (JBool b) = (if b then js ''true'' else js ''false'')"
| "to_string H (JNum NaN) = js ''NaN''"
| "to_string H (JNum PosInf) = js ''Infinity''"
| "to_string H (JNum NegInf) = js ''-Infinity''"
| "to_string H (JNum (Fin x)) = NumberToString H x"
| "to_string H (JStr s) = s"

fun truthy :: "jsval \<Rightarrow> bool" where
  "truthy JUndefined = False"
| "truthy JNull = False"
| "truthy (JBool b) = b"
| "truthy (JNum NaN) = False"
| "truthy (JNum (Fin x)) = (x \<noteq> 0)"
| "truthy (JNum _) = True"
| "truthy (JStr s) = (s \<noteq> [])"

text \<open>Numbers: \<^verbatim>\<open>==\<close> and \<^verbatim>\<open><\<close>; \<^verbatim>\<open>NaN\<close> is equal to nothing and below nothing.\<close>

fun num_eq :: "jsnum \<Rightarrow> jsnum \<Rightarrow> bool" where
  "num_eq NaN _ = False"
| "num_eq _ NaN = False"
| "num_eq x y = (x = y)"

fun num_lt :: "jsnum \<Rightarrow> jsnum \<Rightarrow> bool" where
  "num_lt NaN _ = False"
| "num_lt _ NaN = False"
| "num_lt PosInf _ = False"
| "num_lt _ NegInf = False"
| "num_lt NegInf _ = True"
| "num_lt _ PosInf = True"
| "num_lt (Fin x) (Fin y) = (x < y)"

text \<open>Strings compare by code units, a proper prefix being smaller.\<close>

fun str_lt :: "jsstring \<Rightarrow> jsstring \<Rightarrow> bool" where
  "str_lt _ [] = False"
| "str_lt [] (_ # _) = True"
| "str_lt (x # xs) (y # ys) = (x < y \<or> (x = y \<and> str_lt xs ys))"

text \<open>The relational operator \<^verbatim>\<open>a < b\<close>; \<^verbatim>\<open>a > b\<close> is \<open>js_lt H b a\<close>.\<close>

fun js_lt :: "host \<Rightarrow> jsval \<Rightarrow> jsval \<Rightarrow> bool" where
  "js_lt H (JStr s) (JStr t) = str_lt s t"
| "js_lt H a b = num_lt (to_number H a) (to_number H b)"

text \<open>The loose equality \<^verbatim>\<open>a == b\<close> on primitives.\<close>

fun loose_eq :: "host \<Rightarrow> jsval \<Rightarrow> jsval \<Rightarrow> bool" where
  "loose_eq H JUndefined b = (b = JUndefined \<or> b = JNull)"
| "loose_eq H JNull b = (b = JUndefined \<or> b = JNull)"
| "loose_eq H a JUndefined = False"
| "loose_eq H a JNull = False"
| "loose_eq H (JStr s) (JStr t) = (s = t)"
| "loose_eq H a b = num_eq (to_number H a) (to_number H b)"

text \<open>\<^verbatim>\<open>v / 1000\<close> and \<^verbatim>\<open>v * 100\<close>, after \<^verbatim>\<open>ToNumber\<close>.\<close>

fun div1000 :: "host \<Rightarrow> jsnum \<Rightarrow> jsnum" where
  "div1000 H (Fin x) = roundDouble H (x / 1000)"
| "div1000 H x = x"

fun mul100 :: "host \<Rightarrow> jsnum \<Rightarrow> jsnum" where
  "mul100 H (Fin x) = roundDouble H (x * 100)"
| "mul100 H x = x"

text \<open>The global \<^verbatim>\<open>isFinite\<close> converts its argument to a number first.\<close>

definition isFinite :: "host \<Rightarrow> jsval \<Rightarrow> bool" where
  "isFinite H v = (case to_number H v of Fin _ \<Rightarrow> True | _ \<Rightarrow> False)"

section \<open>The formatters\<close>

text \<open>\<^verbatim>\<open>const isValidNumber = (v) => v != null && isFinite(v);\<close>\<close>

definition isValidNumber :: "host \<Rightarrow> jsval \<Rightarrow> bool" where
  "isValidNumber H v = (\<not> loose_eq H v JNull \<and> isFinite H v)"

text \<open>
  \<^verbatim>\<open>cachedLocales\<close> is a module-level array indexed by the precision; a formatter takes
  it and returns it, extended when it had to create a locale object. The locale object
  is its option, the number of fraction digits. \<^verbatim>\<open>Intl.NumberFormat\<close> raises a
  \<^verbatim>\<open>RangeError\<close> for more than 100 fraction digits; an exception leaves the array as
  it was.
\<close>

datatype numberformat = NumberFormat "nat option"

type_synonym cachedLocales = "nat option \<rightharpoonup> numberformat"

definition createLocale :: "nat option \<Rightarrow> error + numberformat" where
  "createLocale precision =
     (case precision of
        None \<Rightarrow> Inr (NumberFormat None)
      | Some p \<Rightarrow> if p > 100 then Inl RangeError else Inr (NumberFormat (Some p)))"

definition intl_format :: "host \<Rightarrow> numberformat \<Rightarrow> jsval \<Rightarrow> jsstring" where
  "intl_format H nf v = (case nf of NumberFormat p \<Rightarrow> nfFormat H p v)"

text \<open>
  The lines shared by \<^verbatim>\<open>formatCurrency\<close>, \<^verbatim>\<open>formatPercent\<close> and
  \<^verbatim>\<open>formatFixed\<close>:
  \<^verbatim>\<open>if (!cachedLocales[precision]) cachedLocales[precision] = createLocale(precision);\<close>
  followed by the use of \<^verbatim>\<open>cachedLocales[precision]\<close>.
\<close>

definition locale_for :: "nat option \<Rightarrow> cachedLocales \<Rightarrow> (error + numberformat) \<times> cachedLocales" where
  "locale_for precision cache =
     (case cache precision of
        Some nf \<Rightarrow> (Inr nf, cache)
      | None \<Rightarrow>
          (case createLocale precision of
             Inl e \<Rightarrow> (Inl e, cache)
           | Inr nf \<Rightarrow> (Inr nf, cache(precision \<mapsto> nf))))"

text \<open>
  The formatters take the cell value and the row; the row (written \<^verbatim>\<open>_\<close> in the
  source) is never read and is left out. The precision is \<open>None\<close> when the argument is
  missing, as it is when the table calls a formatter.
\<close>

definition formatCurrency ::
  "host \<Rightarrow> jsval \<Rightarrow> nat option \<Rightarrow> cachedLocales \<Rightarrow> (error + jsstring) \<times> cachedLocales" where
  "formatCurrency H v precision cache =
     (if \<not> isValidNumber H v then (Inr (js ''-''), cache)
      else
        let precision = (case precision of None \<Rightarrow> Some 2 | Some p \<Rightarrow> Some p) in
        (case locale_for precision cache of
           (Inl e, cache') \<Rightarrow> (Inl e, cache')
         | (Inr nf, cache') \<Rightarrow> (Inr (js ''$'' @ intl_format H nf v), cache')))"

definition formatDollars ::
  "host \<Rightarrow> jsval \<Rightarrow> cachedLocales \<Rightarrow> (error + jsstring) \<times> cachedLocales" where
  "formatDollars H v cache = formatCurrency H v (Some 0) cache"

text \<open>\<^verbatim>\<open>const formatCPM = (v) => formatCurrency(v && v / 1000);\<close>\<close>

definition formatCPM ::
  "host \<Rightarrow> jsval \<Rightarrow> cachedLocales \<Rightarrow> (error + jsstring) \<times> cachedLocales" where
  "formatCPM H v cache =
     formatCurrency H (if truthy v then JNum (div1000 H (to_number H v)) else v) None cache"

definition formatPercent ::
  "host \<Rightarrow> jsval \<Rightarrow> nat option \<Rightarrow> cachedLocales \<Rightarrow> (error + jsstring) \<times> cachedLocales" where
  "formatPercent H v precision cache =
     (let precision = (case precision of None \<Rightarrow> Some 2 | Some p \<Rightarrow> Some p) in
      if \<not> isValidNumber H v then (Inr (js ''-''), cache)
      else
        (case locale_for precision cache of
           (Inl e, cache') \<Rightarrow> (Inl e, cache')
         | (Inr nf, cache') \<Rightarrow>
             (Inr (intl_format H nf (JNum (mul100 H (to_number H v))) @ js ''%''), cache')))"

definition formatPercent0 ::
  "host \<Rightarrow> jsval \<Rightarrow> cachedLocales \<Rightarrow> (error + jsstring) \<times> cachedLocales" where
  "formatPercent0 H v cache = formatPercent H v (Some 0) cache"

definition formatPercent1 ::
  "host \<Rightarrow> jsval \<Rightarrow> cachedLocales \<Rightarrow> (error + jsstring) \<times> cachedLocales" where
  "formatPercent1 H v cache = formatPercent H v (Some 1) cache"

definition formatFixed ::
  "host \<Rightarrow> jsval \<Rightarrow> nat option \<Rightarrow> cachedLocales \<Rightarrow> (error + jsstring) \<times> cachedLocales" where
  "formatFixed H v precision cache =
     (if \<not> isValidNumber H v then (Inr (js ''-''), cache)
      else
        (case locale_for precision cache of
           (Inl e, cache') \<Rightarrow> (Inl e, cache')
         | (Inr nf, cache') \<Rightarrow> (Inr (intl_format H nf v), cache')))"

definition formatFixed0 ::
  "host \<Rightarrow> jsval \<Rightarrow> cachedLocales \<Rightarrow> (error + jsstring) \<times> cachedLocales" where
  "formatFixed0 H v cache = formatFixed H v (Some 0) cache"

definition formatFixed1 ::
  "host \<Rightarrow> jsval \<Rightarrow> cachedLocales \<Rightarrow> (error + jsstring) \<times> cachedLocales" where
  "formatFixed1 H v cache = formatFixed H v (Some 1) cache"

definition formatFixed2 ::
  "host \<Rightarrow> jsval \<Rightarrow> cachedLocales \<Rightarrow> (error + jsstring) \<times> cachedLocales" where
  "formatFixed2 H v cache = formatFixed H v (Some 2) cache"

text \<open>
  \<^verbatim>\<open>const formatThousands = (v, row) => formatFixed(v / 1000.0, row, 1) + "K";\<close>
  The division comes first, on whatever \<^verbatim>\<open>v\<close> is, and \<^verbatim>\<open>"K"\<close> is appended to
  whatever \<^verbatim>\<open>formatFixed\<close> returns.
\<close>

definition formatThousands ::
  "host \<Rightarrow> jsval \<Rightarrow> cachedLocales \<Rightarrow> (error + jsstring) \<times> cachedLocales" where
  "formatThousands H v cache =
     (case formatFixed H (JNum (div1000 H (to_number H v))) (Some 1) cache of
        (Inl e, cache') \<Rightarrow> (Inl e, cache')
      | (Inr s, cache') \<Rightarrow> (Inr (s @ js ''K''), cache'))"

text \<open>
  \<^verbatim>\<open>const formatCalibration = (v) => isValidNumber(v) ? v.toFixed(2) + "x" : "-";\<close>
  Only a number has a \<^verbatim>\<open>toFixed\<close> method: on a boolean or a string that passed
  \<^verbatim>\<open>isValidNumber\<close> the call raises a \<^verbatim>\<open>TypeError\<close>.
\<close>

definition formatCalibration :: "host \<Rightarrow> jsval \<Rightarrow> error + jsstring" where
  "formatCalibration H v =
     (if isValidNumber H v
      then (case v of
              JNum (Fin x) \<Rightarrow> Inr (toFixed2 H x @ js ''x'')
            | _ \<Rightarrow> Inl TypeError)
      else Inr (js ''-''))"

section \<open>truncate\<close>

text \<open>
  \<^verbatim>\<open>String.prototype.substring(start, end)\<close>: both arguments become integers
  (\<^verbatim>\<open>NaN\<close> becomes 0, a fraction is cut off), are clamped to \<open>[0, length]\<close>, and are
  swapped when the first is the larger.
\<close>

fun clamp_index :: "nat \<Rightarrow> jsnum \<Rightarrow> nat" where
  "clamp_index len NaN = 0"
| "clamp_index len PosInf = len"
| "clamp_index len NegInf = 0"
| "clamp_index len (Fin x) = (if x < 0 then 0 else min (nat \<lfloor>x\<rfloor>) len)"

definition substring :: "jsstring \<Rightarrow> jsnum \<Rightarrow> jsnum \<Rightarrow> jsstring" where
  "substring s start end =
     (let a = clamp_index (length s) start;
          b = clamp_index (length s) end;
          from = min a b;
          to = max a b
      in take (to - from) (drop from s))"

text \<open>
  \<^verbatim>\<open>const truncate = (s, length) =>
       s.length <= length ? s : s.substring(s, length - 1) + "\<dots>";\<close>
  The first argument of \<^verbatim>\<open>substring\<close> is \<^verbatim>\<open>s\<close> itself, which \<^verbatim>\<open>substring\<close>
  converts to a number. The maximal length is an integer. Reading \<^verbatim>\<open>.length\<close> of
  \<^verbatim>\<open>null\<close> or \<^verbatim>\<open>undefined\<close> raises a \<^verbatim>\<open>TypeError\<close>; a number or a boolean has
  no \<^verbatim>\<open>length\<close> (the comparison with \<^verbatim>\<open>undefined\<close> is false) and no
  \<^verbatim>\<open>substring\<close> method, so the call raises a \<^verbatim>\<open>TypeError\<close> as well.
\<close>

fun truncate :: "host \<Rightarrow> jsval \<Rightarrow> int \<Rightarrow> error + jsstring" where
  "truncate H (JStr s) n =
     (if int (length s) \<le> n then Inr s
      else Inr (substring s (to_number H (JStr s)) (Fin (of_int (n - 1))) @ [ellipsis]))"
| "truncate H _ n = Inl TypeError"

section \<open>formatColumnName\<close>

text \<open>
  \<^verbatim>\<open>String.prototype.replace\<close> with a regular expression that has no \<^verbatim>\<open>g\<close> flag
  replaces the first match only. The patterns of \<^verbatim>\<open>formatColumnName\<close> are literal
  texts, one of them anchored at the end.
\<close>

fun replace_first :: "jsstring \<Rightarrow> jsstring \<Rightarrow> jsstring \<Rightarrow> jsstring" where
  "replace_first pat rep [] = (if pat = [] then rep else [])"
| "replace_first pat rep (c # cs) =
     (if take (length pat) (c # cs) = pat then rep @ drop (length pat) (c # cs)
      else c # replace_first pat rep cs)"

definition replace_at_end :: "jsstring \<Rightarrow> jsstring \<Rightarrow> jsstring \<Rightarrow> jsstring" where
  "replace_at_end pat rep s =
     (if length pat \<le> length s \<and> drop (length s - length pat) s = pat
      then take (length s - length pat) s @ rep
      else s)"

text \<open>\<^verbatim>\<open>s.split("-")\<close>: the empty string gives one empty segment.\<close>

fun split :: "nat \<Rightarrow> jsstring \<Rightarrow> jsstring list" where
  "split sep [] = [[]]"
| "split sep (c # cs) =
     (if c = sep then [] # split sep cs
      else (case split sep cs of
              w # ws \<Rightarrow> (c # w) # ws
            | [] \<Rightarrow> [[c]]))"

fun join :: "jsstring \<Rightarrow> jsstring list \<Rightarrow> jsstring" where
  "join sep [] = []"
| "join sep [w] = w"
| "join sep (w # ws) = w @ sep @ join sep ws"

text \<open>\<^verbatim>\<open>toUpperCase\<close> of a string of one code unit.\<close>

definition toUpperCase :: "host \<Rightarrow> nat \<Rightarrow> jsstring" where
  "toUpperCase H c =
     (if c < 128 then (if 97 \<le> c \<and> c \<le> 122 then [c - 32] else [c])
      else upperNonAscii H c)"

text \<open>
  \<^verbatim>\<open>w[0].toUpperCase() + w.slice(1)\<close>: for an empty segment \<^verbatim>\<open>w[0]\<close> is
  \<^verbatim>\<open>undefined\<close>, and the method call on it raises a \<^verbatim>\<open>TypeError\<close>.
\<close>

fun capitalize :: "host \<Rightarrow> jsstring \<Rightarrow> error + jsstring" where
  "capitalize H [] = Inl TypeError"
| "capitalize H (c # cs) = Inr (toUpperCase H c @ cs)"

fun capitalize_all :: "host \<Rightarrow> jsstring list \<Rightarrow> error + jsstring list" where
  "capitalize_all H [] = Inr []"
| "capitalize_all H (w # ws) =
     (case capitalize H w of
        Inl e \<Rightarrow> Inl e
      | Inr u \<Rightarrow> (case capitalize_all H ws of Inl e \<Rightarrow> Inl e | Inr us \<Rightarrow> Inr (u # us)))"

definition formatColumnName :: "host \<Rightarrow> jsstring \<Rightarrow> error + jsstring" where
  "formatColumnName H column =
     (let column = replace_at_end (js ''-id'') (js ''-ID'') column;
          column = replace_first (js ''percent'') (js ''%'') column;
          column = replace_first (js ''pct'') (js ''%'') column;
          column = replace_first (js ''delta'') [Delta] column
      in case capitalize_all H (split 45 column) of
           Inl e \<Rightarrow> Inl e
         | Inr words \<Rightarrow> Inr (join (js '' '') words))"

section \<open>The table\<close>

text \<open>
  A configured formatter takes what the read of the cell gives and the row, and returns
  the text of the cell or raises. A formatter of the library above is the function of
  \<^verbatim>\<open>v\<close> it computes on the current \<^verbatim>\<open>cachedLocales\<close>.

  The caller's array of rows lives in a store of arrays: \<^verbatim>\<open>renderRows\<close> keeps the
  reference it is given and sorts that array in place.

  The markup the component writes is kept as the rows and cells it describes; what the
  HTML parser of a browser makes of a cell text or a column name that contains markup
  is outside the model.
\<close>


text \<open>
  The constructor: \<^verbatim>\<open>x || d\<close> is \<^verbatim>\<open>d\<close> when \<^verbatim>\<open>x\<close> is falsy. An object or an
  array is truthy; a page size is any value.
\<close>

definition constructor :: "options \<Rightarrow> datatable" where
  "constructor opts =
     \<lparr> columnNames = (case opt_columnNames opts of
                        Some m \<Rightarrow> NamesObject m
                      | None \<Rightarrow> EmptyArray),
       columns = opt_columns opts,
       pageSize = (if truthy (opt_pageSize opts) then opt_pageSize opts else JNum (Fin 30)),
       sortOptions = opt_sort opts,
       clickableColumns = (case opt_clickableColumns opts of Some cs \<Rightarrow> cs | None \<Rightarrow> []),
       formatters = (case opt_formatters opts of Some m \<Rightarrow> m | None \<Rightarrow> Map.empty),
       rows = None,
       renderedColumns = None,
       thead = [],
       tbody = [] \<rparr>"

subsection \<open>setSortOptions\<close>

text \<open>
  \<^verbatim>\<open>JSON.stringify\<close> of a sort state. The text lists the properties in their order,
  leaves out a property whose value is \<^verbatim>\<open>undefined\<close> and writes \<^verbatim>\<open>null\<close> for a
  number that is not finite. The text is kept as the tree it spells (two texts are equal
  exactly when their trees are); \<^verbatim>\<open>JSON.stringify(undefined)\<close> is \<^verbatim>\<open>undefined\<close>.
\<close>

datatype json =
  JsonNull | JsonBool bool | JsonNumber rat | JsonString jsstring
  | JsonObject "(jsstring \<times> json) list"

fun json_of :: "jsval \<Rightarrow> json option" where
  "json_of JUndefined = None"
| "json_of JNull = Some JsonNull"
| "json_of (JBool b) = Some (JsonBool b)"
| "json_of (JNum (Fin x)) = Some (JsonNumber x)"
| "json_of (JNum _) = Some JsonNull"
| "json_of (JStr s) = Some (JsonString s)"

fun json_properties :: "jsobj \<Rightarrow> (jsstring \<times> json) list" where
  "json_properties [] = []"
| "json_properties ((k, v) # kvs) =
     (case json_of v of
        None \<Rightarrow> json_properties kvs
      | Some j \<Rightarrow> (k, j) # json_properties kvs)"

definition JSON_stringify :: "jsobj option \<Rightarrow> json option" where
  "JSON_stringify v =
     (case v of None \<Rightarrow> None | Some obj \<Rightarrow> Some (JsonObject (json_properties obj)))"

definition setSortOptions :: "datatable \<Rightarrow> jsobj option \<Rightarrow> datatable" where
  "setSortOptions t so =
     (if JSON_stringify (sortOptions t) = JSON_stringify so then t
      else t\<lparr>sortOptions := so\<rparr>)"

subsection \<open>onClick\<close>

text \<open>
  A click reaches \<^verbatim>\<open>onClick\<close> with its target: a body cell (with the \<^verbatim>\<open>data-i\<close>
  of its row, its \<^verbatim>\<open>cellIndex\<close> and the shift key), the graph button, a header
  cell (with its \<^verbatim>\<open>cellIndex\<close>), or anything else. The events dispatched are returned
  in order. An index beyond an array reads \<^verbatim>\<open>undefined\<close>; a property read on
  \<^verbatim>\<open>undefined\<close> raises a \<^verbatim>\<open>TypeError\<close>.
\<close>

datatype target = TD nat nat bool | GraphButton | TH nat | Other

datatype event =
  CellClick jsval property jsstring
  | GraphButtonClick
  | SortChange "jsobj option"

definition element_at :: "jsstring list \<Rightarrow> nat \<Rightarrow> jsval" where
  "element_at xs i = (if i < length xs then JStr (xs ! i) else JUndefined)"

definition onClick ::
  "host \<Rightarrow> datatable \<Rightarrow> heap \<Rightarrow> target \<Rightarrow> error + datatable \<times> event list" where
  "onClick H t h target =
     (case target of
        TD i cellIndex shiftKey \<Rightarrow>
          (case renderedColumns t of
             None \<Rightarrow> Inl TypeError
           | Some cols \<Rightarrow>
               let column = element_at cols cellIndex;
                   action = (if shiftKey then js ''toggle'' else js ''select'')
               in (case rows t of
                     None \<Rightarrow> Inl TypeError
                   | Some a \<Rightarrow>
                       if i < length (h a)
                       then Inr (t, [CellClick column (read (h a ! i) (to_string H column)) action])
                       else Inl TypeError))
      | GraphButton \<Rightarrow> Inr (t, [GraphButtonClick])
      | TH cellIndex \<Rightarrow>
          (case renderedColumns t of
             None \<Rightarrow> Inl TypeError
           | Some cols \<Rightarrow>
               let column = element_at cols cellIndex in
               (case sortOptions t of
                  None \<Rightarrow>
                    if loose_eq H JUndefined column then Inl TypeError
                    else
                      let t' = setSortOptions t
                                 (Some [(js ''column'', column), (js ''order'', JStr (js ''desc''))])
                      in Inr (t', [SortChange (sortOptions t')])
                | Some so \<Rightarrow>
                    let new =
                      (if loose_eq H (get so (js ''column'')) column
                       then [(js ''column'', column),
                             (js ''order'',
                              JStr (if loose_eq H (get so (js ''order'')) (JStr (js ''asc''))
                                    then js ''desc'' else js ''asc''))]
                       else [(js ''column'', column), (js ''order'', JStr (js ''desc''))]);
                       t' = setSortOptions t (Some new)
                    in Inr (t', [SortChange (sortOptions t')])))
      | Other \<Rightarrow> Inr (t, []))"


subsection \<open>renderRows\<close>

text \<open>
  The three-way comparison of the source:
  \<^verbatim>\<open>const compare = (a, b) => { if (a < b) return -1; if (a > b) return 1; return 0; };\<close>
\<close>

definition compare :: "host \<Rightarrow> jsval \<Rightarrow> jsval \<Rightarrow> int" where
  "compare H a b = (if js_lt H a b then - 1 else if js_lt H b a then 1 else 0)"

text \<open>
  The text that an inherited member converts to, in a comparison and in a template: the
  text of the function, which for \<^verbatim>\<open>constructor\<close> is the function \<^verbatim>\<open>Object\<close> or
  \<^verbatim>\<open>Array\<close>; for \<^verbatim>\<open>__proto__\<close> the text of the prototype object.
\<close>

definition inherited_text :: "host \<Rightarrow> jsstring \<Rightarrow> jsstring \<Rightarrow> jsstring \<Rightarrow> jsstring" where
  "inherited_text H constructor_name prototype_text col =
     (if col = js ''__proto__'' then prototype_text
      else if col = js ''constructor'' then functionText H constructor_name
      else functionText H col)"

definition to_primitive :: "host \<Rightarrow> property \<Rightarrow> jsval" where
  "to_primitive H p =
     (case p of
        Primitive v \<Rightarrow> v
      | Inherited k \<Rightarrow> JStr (inherited_text H (js ''Object'') (js ''[object Object]'') k))"

text \<open>
  \<^verbatim>\<open>a[column]\<close> reads the property named by the string of \<^verbatim>\<open>column\<close>; the
  comparison converts what it reads to a primitive. The order is ascending when
  \<^verbatim>\<open>order == "asc"\<close> and descending for every other value.
\<close>

definition comparator :: "host \<Rightarrow> jsobj \<Rightarrow> jsobj \<Rightarrow> jsobj \<Rightarrow> int" where
  "comparator H so =
     (let column = to_string H (get so (js ''column'')) in
      if loose_eq H (get so (js ''order'')) (JStr (js ''asc''))
      then (\<lambda>a b. compare H (to_primitive H (read a column)) (to_primitive H (read b column)))
      else (\<lambda>a b. compare H (to_primitive H (read b column)) (to_primitive H (read a column))))"

text \<open>
  \<^verbatim>\<open>Array.prototype.sort\<close> with a comparison function. ECMAScript asks for a stable
  sort: when the function orders the elements consistently the result is the one sorted
  arrangement that keeps equal elements in their order. When it does not, the order is
  left to the implementation. The sort is modelled by a stable insertion sort, which
  gives that arrangement in the first case.
\<close>

fun insert_by :: "('a \<Rightarrow> 'a \<Rightarrow> int) \<Rightarrow> 'a \<Rightarrow> 'a list \<Rightarrow> 'a list" where
  "insert_by cmp x [] = [x]"
| "insert_by cmp x (y # ys) = (if cmp x y \<le> 0 then x # y # ys else y # insert_by cmp x ys)"

definition array_sort :: "('a \<Rightarrow> 'a \<Rightarrow> int) \<Rightarrow> 'a list \<Rightarrow> 'a list" where
  "array_sort cmp xs = foldr (insert_by cmp) xs []"

text \<open>
  The local function \<^verbatim>\<open>format\<close>:
  \<^verbatim>\<open>this.formatters[col] ? this.formatters[col](row[col], row) : "" + row[col]\<close>
  \<^verbatim>\<open>this.formatters\<close> is a plain object. For a column named like a member of
  \<^verbatim>\<open>Object.prototype\<close> and not configured, \<^verbatim>\<open>this.formatters[col]\<close> is the
  inherited member, which is truthy, and the member is called as the formatter:
  \<^verbatim>\<open>__defineGetter__\<close> and \<^verbatim>\<open>__defineSetter__\<close> raise a \<^verbatim>\<open>TypeError\<close> for the
  row, which is not a function; \<^verbatim>\<open>__proto__\<close> is the prototype object, and calling
  it raises a \<^verbatim>\<open>TypeError\<close>; the outcome for the other members is the host's.
\<close>

definition format :: "host \<Rightarrow> datatable \<Rightarrow> jsstring \<Rightarrow> jsobj \<Rightarrow> error + jsstring" where
  "format H t col row =
     (case formatters t col of
        Some f \<Rightarrow> f (read row col) row
      | None \<Rightarrow>
          if col \<in> set object_prototype_members
          then (if col \<in> set (map js [''__defineGetter__'', ''__defineSetter__'', ''__proto__''])
                then Inl TypeError
                else inheritedCall H col (formatters t) row)
          else Inr (to_string H (get row col)))"

text \<open>
  \<^verbatim>\<open>const isNumeric = (string) => /^[$]*[0-9,.\-]+[%xKMG]*$/.test(string);\<close>
  The three character classes are disjoint, so a string matches in one way at most:
  the dollars, then a non-empty run of the middle class, then letters of the last class
  up to the end.
\<close>

definition numeric_char :: "nat \<Rightarrow> bool" where
  "numeric_char c = (is_digit c \<or> c = 44 \<or> c = 46 \<or> c = 45)"

definition unit_char :: "nat \<Rightarrow> bool" where
  "unit_char c = (c = 37 \<or> c = 120 \<or> c = 75 \<or> c = 77 \<or> c = 71)"

definition isNumeric :: "jsstring \<Rightarrow> bool" where
  "isNumeric string =
     (let rest = dropWhile (\<lambda>c. c = 36) string
      in takeWhile numeric_char rest \<noteq> [] \<and> list_all unit_char (dropWhile numeric_char rest))"

text \<open>
  \<^verbatim>\<open>colStyles\<close>: for each column the class names \<^verbatim>\<open>clickable\<close> and \<^verbatim>\<open>number\<close>
  that apply, joined by a comma, or \<^verbatim>\<open>null\<close> when none does. The text tested is the
  formatted cell of the first row.
\<close>

fun colStyles ::
  "host \<Rightarrow> datatable \<Rightarrow> jsobj \<Rightarrow> jsstring list \<Rightarrow> error + jsstring option list" where
  "colStyles H t row [] = Inr []"
| "colStyles H t row (c # cs) =
     (case format H t c row of
        Inl e \<Rightarrow> Inl e
      | Inr s \<Rightarrow>
          let classNames =
                (if c \<in> set (clickableColumns t) then [js ''clickable''] else [])
                @ (if isNumeric s then [js ''number''] else []);
              style = (if length classNames = 0 then None else Some (join (js '','') classNames))
          in (case colStyles H t row cs of
                Inl e \<Rightarrow> Inl e
              | Inr styles \<Rightarrow> Inr (style # styles)))"

text \<open>
  The header cells:
  \<^verbatim>\<open>const columnName = this.columnNames[col] || DataTable.formatColumnName(col);\<close>
  An empty configured name is falsy. A name that is not configured and is a member that
  \<^verbatim>\<open>this.columnNames\<close> inherits is that member: of \<^verbatim>\<open>Object.prototype\<close> for a
  configured object, whose prototype object writes as \<^verbatim>\<open>[object Object]\<close>; of
  \<^verbatim>\<open>Array.prototype\<close> and \<^verbatim>\<open>Object.prototype\<close> for the default \<^verbatim>\<open>[]\<close>, whose
  prototype object is an empty array and writes as the empty string.
\<close>

definition columnName :: "host \<Rightarrow> datatable \<Rightarrow> jsstring \<Rightarrow> error + jsstring" where
  "columnName H t col =
     (case columnNames t of
        NamesObject m \<Rightarrow>
          (case m col of
             Some name \<Rightarrow> if name \<noteq> [] then Inr name else formatColumnName H col
           | None \<Rightarrow>
               if col \<in> set object_prototype_members
               then Inr (inherited_text H (js ''Object'') (js ''[object Object]'') col)
               else formatColumnName H col)
      | EmptyArray \<Rightarrow>
          if col \<in> set object_prototype_members \<or> col \<in> set array_prototype_members
          then Inr (inherited_text H (js ''Array'') [] col)
          else formatColumnName H col)"

fun header_cells ::
  "host \<Rightarrow> datatable \<Rightarrow> (jsstring \<times> jsstring option) list \<Rightarrow> error + th list" where
  "header_cells H t [] = Inr []"
| "header_cells H t ((col, style) # rest) =
     (case columnName H t col of
        Inl e \<Rightarrow> Inl e
      | Inr name \<Rightarrow>
          (case header_cells H t rest of
             Inl e \<Rightarrow> Inl e
           | Inr ths \<Rightarrow>
               Inr (\<lparr> th_class = style, th_column = col, th_name = name, th_sort = None \<rparr> # ths)))"

text \<open>
  \<^verbatim>\<open>columns.indexOf(this.sortOptions.column)\<close> compares strictly: only a string can be
  found among the column keys.
\<close>

fun index_of :: "jsstring list \<Rightarrow> jsstring \<Rightarrow> nat option" where
  "index_of [] c = None"
| "index_of (x # xs) c =
     (if x = c then Some 0 else (case index_of xs c of None \<Rightarrow> None | Some i \<Rightarrow> Some (Suc i)))"

definition indexOf :: "jsstring list \<Rightarrow> jsval \<Rightarrow> nat option" where
  "indexOf cols v = (case v of JStr c \<Rightarrow> index_of cols c | _ \<Rightarrow> None)"

text \<open>
  \<^verbatim>\<open>th.classList.add(this.sortOptions.order)\<close>: the token is the string of the value;
  an empty token or one with ASCII white space raises a \<^verbatim>\<open>DOMException\<close>.
\<close>

definition white_space :: "nat \<Rightarrow> bool" where
  "white_space c = (c = 9 \<or> c = 10 \<or> c = 12 \<or> c = 13 \<or> c = 32)"

definition classList_add :: "jsstring \<Rightarrow> th \<Rightarrow> error + th" where
  "classList_add token cell =
     (if token = [] \<or> list_ex white_space token then Inl DOMException
      else Inr (cell\<lparr>th_sort := Some token\<rparr>))"

definition sort_indicator :: "host \<Rightarrow> datatable \<Rightarrow> jsstring list \<Rightarrow> error + th list" where
  "sort_indicator H t cols =
     (case sortOptions t of
        None \<Rightarrow> Inr (thead t)
      | Some so \<Rightarrow>
          (case indexOf cols (get so (js ''column'')) of
             None \<Rightarrow> Inr (thead t)
           | Some sortColumnIndex \<Rightarrow>
               if sortColumnIndex < length (thead t)
               then (case classList_add (to_string H (get so (js ''order'')))
                            (thead t ! sortColumnIndex) of
                       Inl e \<Rightarrow> Inl e
                     | Inr cell \<Rightarrow> Inr ((thead t)[sortColumnIndex := cell]))
               else Inl TypeError))"

text \<open>
  \<^verbatim>\<open>Math.min\<close> is \<^verbatim>\<open>NaN\<close> when an argument is; the page size is converted to a number.
\<close>

definition Math_min :: "jsnum \<Rightarrow> jsnum \<Rightarrow> jsnum" where
  "Math_min x y = (if x = NaN \<or> y = NaN then NaN else if num_lt y x then y else x)"

text \<open>The cells of one body row.\<close>

fun row_cells ::
  "host \<Rightarrow> datatable \<Rightarrow> jsobj \<Rightarrow> (jsstring \<times> jsstring option) list \<Rightarrow> error + td list" where
  "row_cells H t row [] = Inr []"
| "row_cells H t row ((col, style) # rest) =
     (case format H t col row of
        Inl e \<Rightarrow> Inl e
      | Inr v \<Rightarrow>
          (case row_cells H t row rest of
             Inl e \<Rightarrow> Inl e
           | Inr tds \<Rightarrow> Inr (\<lparr> td_class = style, td_column = col, td_value = v \<rparr> # tds)))"

text \<open>
  The loop \<^verbatim>\<open>for (let i = 0; i < rowCount; i++)\<close> over \<^verbatim>\<open>rows[i]\<close>. The count is
  never above \<^verbatim>\<open>rows.length\<close>, so the loop is a recursion over the rows from index
  \<open>i\<close> on that stops at the first index not below \<open>rowCount\<close>. A row is
  \<^verbatim>\<open>selected\<close> or \<^verbatim>\<open>unselected\<close> when a predicate is given and has no class
  otherwise.
\<close>

fun body_rows ::
  "host \<Rightarrow> datatable \<Rightarrow> (jsobj \<Rightarrow> bool) option \<Rightarrow> (jsstring \<times> jsstring option) list \<Rightarrow>
   jsnum \<Rightarrow> nat \<Rightarrow> jsobj list \<Rightarrow> error + tr list" where
  "body_rows H t isSelectedFn cols rowCount i [] = Inr []"
| "body_rows H t isSelectedFn cols rowCount i (row # rest) =
     (if num_lt (Fin (of_nat i)) rowCount
      then
        let rowClass =
              (case isSelectedFn of
                 None \<Rightarrow> None
               | Some f \<Rightarrow> Some (if f row then js ''selected'' else js ''unselected''))
        in (case row_cells H t row cols of
              Inl e \<Rightarrow> Inl e
            | Inr tds \<Rightarrow>
                (case body_rows H t isSelectedFn cols rowCount (Suc i) rest of
                   Inl e \<Rightarrow> Inl e
                 | Inr trs \<Rightarrow> Inr (\<lparr> tr_i = i, tr_class = rowClass, tr_cells = tds \<rparr> # trs)))
      else Inr [])"

text \<open>
  \<^verbatim>\<open>renderRows(rows, isSelectedFn)\<close>. The result is the component, the store and the
  exception raised, if any: what was assigned before an exception stays assigned.
\<close>

definition renderRows ::
  "host \<Rightarrow> datatable \<Rightarrow> heap \<Rightarrow> addr \<Rightarrow> (jsobj \<Rightarrow> bool) option \<Rightarrow>
   datatable \<times> heap \<times> error option" where
  "renderRows H t h a isSelectedFn =
     (let t = t\<lparr>rows := Some a\<rparr> in
      if h a = [] then (t\<lparr>tbody := []\<rparr>, h, None)
      else
        let h = (case sortOptions t of
                   None \<Rightarrow> h
                 | Some so \<Rightarrow> h(a := array_sort (comparator H so) (h a)))
        in (case h a of
              [] \<Rightarrow> (t, h, Some TypeError)
            | row # _ \<Rightarrow>
                let cols = (case columns t of Some cs \<Rightarrow> cs | None \<Rightarrow> map fst row);
                    t = t\<lparr>renderedColumns := Some cols\<rparr>
                in (case colStyles H t row cols of
                      Inl e \<Rightarrow> (t, h, Some e)
                    | Inr styles \<Rightarrow>
                        (case header_cells H t (zip cols styles) of
                           Inl e \<Rightarrow> (t, h, Some e)
                         | Inr ths \<Rightarrow>
                             let t = t\<lparr>thead := ths\<rparr> in
                             (case sort_indicator H t cols of
                                Inl e \<Rightarrow> (t, h, Some e)
                              | Inr ths' \<Rightarrow>
                                  let t = t\<lparr>thead := ths'\<rparr>;
                                      rowCount = Math_min (Fin (of_nat (length (h a))))
                                                   (to_number H (pageSize t))
                                  in (case body_rows H t isSelectedFn (zip cols styles)
                                             rowCount 0 (h a) of
                                        Inl e \<Rightarrow> (t, h, Some e)
                                      | Inr trs \<Rightarrow> (t\<lparr>tbody := trs\<rparr>, h, None)))))))"


section \<open>Notions used in the statements\<close>

text \<open>A call returns (a string) when it raises nothing.\<close>

definition returns :: "error + 'a \<Rightarrow> bool" where
  "returns r = (case r of Inl _ \<Rightarrow> False | Inr _ \<Rightarrow> True)"

text \<open>The values that are \<^verbatim>\<open>null\<close>, \<^verbatim>\<open>undefined\<close> or a number.\<close>

fun nullish_or_number :: "jsval \<Rightarrow> bool" where
  "nullish_or_number JUndefined = True"
| "nullish_or_number JNull = True"
| "nullish_or_number (JNum x) = True"
| "nullish_or_number _ = False"

text \<open>The sort state \<^verbatim>\<open>{ column: c, order: o }\<close>, as \<^verbatim>\<open>onClick\<close> builds it.\<close>

definition sort_state :: "jsstring \<Rightarrow> jsstring \<Rightarrow> jsobj" where
  "sort_state column order = [(js ''column'', JStr column), (js ''order'', JStr order)]"

text \<open>An object all of whose property values are strings.\<close>

definition string_valued :: "jsobj \<Rightarrow> bool" where
  "string_valued obj = list_all (\<lambda>kv. case snd kv of JStr _ \<Rightarrow> True | _ \<Rightarrow> False) obj"

text \<open>
  Deep equality as the specification words it: the same properties with the same
  values, whatever the order of the keys.
\<close>

definition deep_equal :: "jsobj \<Rightarrow> jsobj \<Rightarrow> bool" where
  "deep_equal a b =
     (set (map fst a) = set (map fst b) \<and> list_all (\<lambda>k. get a k = get b k) (map fst a))"

text \<open>The table \<^verbatim>\<open>new DataTable({ sort: so, pageSize: ps })\<close>.\<close>

definition table_with :: "jsobj option \<Rightarrow> jsval \<Rightarrow> datatable" where
  "table_with so ps =
     constructor \<lparr> opt_columnNames = None, opt_columns = None, opt_pageSize = ps,
                   opt_sort = so, opt_clickableColumns = None, opt_formatters = None \<rparr>"

text \<open>
  Cell values that the comparison of the sort orders consistently: all of them strings
  (compared by code units), or none of them a string and none of them \<^verbatim>\<open>NaN\<close> as a
  number (numbers, \<^verbatim>\<open>null\<close> and booleans, compared as numbers).
\<close>

fun is_string :: "jsval \<Rightarrow> bool" where
  "is_string (JStr _) = True"
| "is_string _ = False"

definition comparable :: "host \<Rightarrow> jsval list \<Rightarrow> bool" where
  "comparable H vs =
     (list_all is_string vs \<or> list_all (\<lambda>v. \<not> is_string v \<and> to_number H v \<noteq> NaN) vs)"

text \<open>The rows as \<^verbatim>\<open>renderRows\<close> leaves them in the caller's array.\<close>

definition sorted_rows :: "host \<Rightarrow> datatable \<Rightarrow> jsobj list \<Rightarrow> jsobj list" where
  "sorted_rows H t rs =
     (case sortOptions t of None \<Rightarrow> rs | Some so \<Rightarrow> array_sort (comparator H so) rs)"

text \<open>
  The order after the sort is determined: there is no sort state, or the values of the
  sort column are ones that the comparison orders consistently, so that the stable sort
  has one result.
\<close>

definition sort_determined :: "host \<Rightarrow> datatable \<Rightarrow> jsobj list \<Rightarrow> bool" where
  "sort_determined H t rs =
     (case sortOptions t of
        None \<Rightarrow> True
      | Some so \<Rightarrow> comparable H (map (\<lambda>r. get r (to_string H (get so (js ''column'')))) rs))"

text \<open>
  The columns of a render: the configured ones, or the keys of the first row of the
  sequence after the sort.
\<close>

definition rendered_columns :: "datatable \<Rightarrow> jsobj list \<Rightarrow> jsstring list" where
  "rendered_columns t rs =
     (case columns t of
        Some cs \<Rightarrow> cs
      | None \<Rightarrow> map fst (hd rs))"

text \<open>A class token that \<^verbatim>\<open>classList.add\<close> accepts.\<close>

definition valid_token :: "jsstring \<Rightarrow> bool" where
  "valid_token token = (token \<noteq> [] \<and> \<not> list_ex white_space token)"

text \<open>
  The cells of a body row show a row of the data: one cell for each column, in order,
  with the text that \<^verbatim>\<open>format\<close> gives for that column and row.
\<close>

definition cells_of :: "host \<Rightarrow> datatable \<Rightarrow> jsstring list \<Rightarrow> jsobj \<Rightarrow> td list \<Rightarrow> bool" where
  "cells_of H t cols row tds =
     (map td_column tds = cols
      \<and> map (\<lambda>c. format H t c row) cols = map (\<lambda>cell. Inr (td_value cell)) tds)"

text \<open>The row \<^verbatim>\<open>{ c: v }\<close>.\<close>

definition row_of :: "jsstring \<Rightarrow> jsval \<Rightarrow> jsobj" where
  "row_of c v = [(c, v)]"

section \<open>The formatters on values that are not numbers\<close>

lemma isValidNumber_simps:
  "isValidNumber H JUndefined = False"
  "isValidNumber H JNull = False"
  "isValidNumber H (JNum NaN) = False"
  "isValidNumber H (JNum PosInf) = False"
  "isValidNumber H (JNum NegInf) = False"
  "isValidNumber H (JNum (Fin x)) = True"
  by (simp_all add: isValidNumber_def isFinite_def)

lemma locale_for_Some: "p \<le> 100 \<Longrightarrow> \<exists>nf. fst (locale_for (Some p) cache) = Inr nf"
  by (simp add: locale_for_def createLocale_def split: option.splits)

lemma locale_for_None: "\<exists>nf. fst (locale_for None cache) = Inr nf"
  by (simp add: locale_for_def createLocale_def split: option.splits)

lemma formatFixed_returns:
  assumes "case p of None \<Rightarrow> True | Some k \<Rightarrow> k \<le> 100"
  shows "\<exists>s. fst (formatFixed H v p cache) = Inr s"
proof (cases "isValidNumber H v")
  case False
  then show ?thesis by (simp add: formatFixed_def)
next
  case True
  have "\<exists>nf. fst (locale_for p cache) = Inr nf"
    using assms by (cases p) (simp_all add: locale_for_Some locale_for_None)
  then obtain nf where "fst (locale_for p cache) = Inr nf" ..
  then show ?thesis using True
    by (cases "locale_for p cache") (simp add: formatFixed_def)
qed

lemma formatCurrency_returns:
  assumes "case p of None \<Rightarrow> True | Some k \<Rightarrow> k \<le> 100"
  shows "\<exists>s. fst (formatCurrency H v p cache) = Inr s"
proof (cases "isValidNumber H v")
  case False
  then show ?thesis by (simp add: formatCurrency_def)
next
  case True
  define q where "q = (case p of None \<Rightarrow> Some 2 | Some k \<Rightarrow> Some k)"
  have "\<exists>k. q = Some k \<and> k \<le> 100" using assms by (cases p) (auto simp: q_def)
  then obtain nf where "fst (locale_for q cache) = Inr nf"
    using locale_for_Some by blast
  then show ?thesis using True
    by (cases "locale_for q cache") (simp add: formatCurrency_def q_def)
qed

lemma formatPercent_returns:
  assumes "case p of None \<Rightarrow> True | Some k \<Rightarrow> k \<le> 100"
  shows "\<exists>s. fst (formatPercent H v p cache) = Inr s"
proof (cases "isValidNumber H v")
  case False
  then show ?thesis by (simp add: formatPercent_def Let_def)
next
  case True
  define q where "q = (case p of None \<Rightarrow> Some 2 | Some k \<Rightarrow> Some k)"
  have "\<exists>k. q = Some k \<and> k \<le> 100" using assms by (cases p) (auto simp: q_def)
  then obtain nf where "fst (locale_for q cache) = Inr nf"
    using locale_for_Some by blast
  then show ?thesis using True
    by (cases "locale_for q cache") (simp add: formatPercent_def q_def)
qed

lemma formatThousands_returns: "\<exists>s. fst (formatThousands H v cache) = Inr (s @ js ''K'')"
proof -
  obtain s where "fst (formatFixed H (JNum (div1000 H (to_number H v))) (Some 1) cache) = Inr s"
    using formatFixed_returns [of "Some 1" H "JNum (div1000 H (to_number H v))" cache] by auto
  then show ?thesis
    by (cases "formatFixed H (JNum (div1000 H (to_number H v))) (Some 1) cache")
       (simp add: formatThousands_def)
qed

lemma formatCalibration_returns:
  "nullish_or_number v \<or> \<not> isValidNumber H v \<Longrightarrow> \<exists>s. formatCalibration H v = Inr s"
  by (cases v rule: nullish_or_number.cases)
     (auto simp: formatCalibration_def isValidNumber_def isFinite_def split: jsnum.splits)

text \<open>
  Eleven of the twelve formatters give \<^verbatim>\<open>"-"\<close> for \<^verbatim>\<open>null\<close>, \<^verbatim>\<open>undefined\<close> and
  \<^verbatim>\<open>NaN\<close>, whatever the precision and the state of the cache.
\<close>

lemma formatters_placeholder:
  assumes "v = JUndefined \<or> v = JNull \<or> v = JNum NaN"
  shows "fst (formatCurrency H v p c) = Inr (js ''-'')"
    and "fst (formatDollars H v c) = Inr (js ''-'')"
    and "fst (formatCPM H v c) = Inr (js ''-'')"
    and "fst (formatPercent H v p c) = Inr (js ''-'')"
    and "fst (formatPercent0 H v c) = Inr (js ''-'')"
    and "fst (formatPercent1 H v c) = Inr (js ''-'')"
    and "fst (formatFixed H v p c) = Inr (js ''-'')"
    and "fst (formatFixed0 H v c) = Inr (js ''-'')"
    and "fst (formatFixed1 H v c) = Inr (js ''-'')"
    and "fst (formatFixed2 H v c) = Inr (js ''-'')"
    and "formatCalibration H v = Inr (js ''-'')"
  using assms
  by (auto simp: formatCurrency_def formatDollars_def formatCPM_def formatPercent_def
      formatPercent0_def formatPercent1_def formatFixed_def formatFixed0_def formatFixed1_def
      formatFixed2_def formatCalibration_def isValidNumber_simps Let_def)

text \<open>
  Claim C1. Every built-in formatter applied to \<^verbatim>\<open>null\<close>, \<^verbatim>\<open>undefined\<close> or
  \<^verbatim>\<open>NaN\<close> returns exactly \<^verbatim>\<open>"-"\<close>. It holds for eleven of them
  (\<open>formatters_placeholder\<close>) and fails for \<^verbatim>\<open>formatThousands\<close>, which divides first
  and appends \<^verbatim>\<open>"K"\<close> last: \<^verbatim>\<open>undefined\<close> and \<^verbatim>\<open>NaN\<close> give \<^verbatim>\<open>"-K"\<close>, and
  \<^verbatim>\<open>null\<close>, which the division turns into a number, gives a text that ends in
  \<^verbatim>\<open>K\<close>.
\<close>

theorem formatThousands_placeholder:
  "fst (formatThousands H JUndefined c) = Inr (js ''-K'')
   \<and> fst (formatThousands H (JNum NaN) c) = Inr (js ''-K'')
   \<and> (\<exists>s. fst (formatThousands H JNull c) = Inr (s @ js ''K''))
   \<and> fst (formatThousands H JNull c) \<noteq> Inr (js ''-'')"
proof -
  have 1: "fst (formatThousands H JUndefined c) = Inr (js ''-K'')"
    by (simp add: formatThousands_def formatFixed_def isValidNumber_simps js_def)
  have 2: "fst (formatThousands H (JNum NaN) c) = Inr (js ''-K'')"
    by (simp add: formatThousands_def formatFixed_def isValidNumber_simps js_def)
  obtain s where 3: "fst (formatThousands H JNull c) = Inr (s @ js ''K'')"
    using formatThousands_returns by blast
  then have "fst (formatThousands H JNull c) \<noteq> Inr (js ''-'')"
    by (cases s) (simp_all add: js_def)
  with 1 2 3 show ?thesis by blast
qed

text \<open>
  Claim C5. No built-in formatter, \<^verbatim>\<open>truncate\<close> included, ever raises: every raw
  value, \<^verbatim>\<open>null\<close> and \<^verbatim>\<open>undefined\<close> included, gives a string. The claim fails for
  \<^verbatim>\<open>truncate\<close>, a helper for strings, which reads \<^verbatim>\<open>s.length\<close>: on \<^verbatim>\<open>null\<close>
  that is a \<^verbatim>\<open>TypeError\<close>.
\<close>

theorem truncate_null_raises: "\<forall>H. truncate H JNull 5 = Inl TypeError"
  by simp

text \<open>
  Claim C5, amended. Eleven of the numeric formatters (\<^verbatim>\<open>formatCurrency\<close>,
  \<^verbatim>\<open>formatDollars\<close>, \<^verbatim>\<open>formatCPM\<close>, \<^verbatim>\<open>formatPercent\<close>,
  \<^verbatim>\<open>formatPercent0\<close>, \<^verbatim>\<open>formatPercent1\<close>, \<^verbatim>\<open>formatFixed\<close>,
  \<^verbatim>\<open>formatFixed0\<close>, \<^verbatim>\<open>formatFixed1\<close>, \<^verbatim>\<open>formatFixed2\<close>,
  \<^verbatim>\<open>formatThousands\<close>) return a string for every raw value. \<^verbatim>\<open>formatCalibration\<close>
  returns a string for \<^verbatim>\<open>null\<close>, for \<^verbatim>\<open>undefined\<close>, for every number, finite or
  not, and for every value that \<^verbatim>\<open>isValidNumber\<close> refuses. \<^verbatim>\<open>truncate\<close> returns a
  string for every string and every maximal length.
\<close>

theorem formatters_return:
  "returns (fst (formatCurrency H v None c)) \<and> returns (fst (formatDollars H v c))
   \<and> returns (fst (formatCPM H v c)) \<and> returns (fst (formatPercent H v None c))
   \<and> returns (fst (formatPercent0 H v c)) \<and> returns (fst (formatPercent1 H v c))
   \<and> returns (fst (formatFixed H v None c)) \<and> returns (fst (formatFixed0 H v c))
   \<and> returns (fst (formatFixed1 H v c)) \<and> returns (fst (formatFixed2 H v c))
   \<and> returns (fst (formatThousands H v c))
   \<and> (nullish_or_number v \<or> \<not> isValidNumber H v \<longrightarrow> returns (formatCalibration H v))
   \<and> returns (truncate H (JStr s) n)"
proof -
  have r: "returns x" if "\<exists>s. x = Inr s" for x :: "error + jsstring"
    using that by (auto simp: returns_def)
  have "returns (fst (formatCurrency H v p c))" if "p = None \<or> p = Some 0" for v p
    using that formatCurrency_returns [of p H v c] by (auto intro: r)
  moreover have "returns (fst (formatPercent H v p c))"
    if "p = None \<or> p = Some 0 \<or> p = Some 1" for p
    using that formatPercent_returns [of p H v c] by (auto intro: r)
  moreover have "returns (fst (formatFixed H v p c))"
    if "p = None \<or> p = Some 0 \<or> p = Some 1 \<or> p = Some 2" for p
    using that formatFixed_returns [of p H v c] by (auto intro: r)
  moreover have "returns (fst (formatThousands H v c))"
    using formatThousands_returns [of H v c] by (auto intro: r)
  moreover have "returns (formatCalibration H v)" if "nullish_or_number v \<or> \<not> isValidNumber H v"
    using formatCalibration_returns [OF that] by (auto intro: r)
  moreover have "returns (truncate H (JStr s) n)"
    by (simp add: returns_def)
  ultimately show ?thesis
    by (simp add: formatDollars_def formatCPM_def formatPercent0_def formatPercent1_def
        formatFixed0_def formatFixed1_def formatFixed2_def)
qed

theorem formatters_return_witness:
  "\<forall>H c. returns (fst (formatCurrency H (JBool True) None c))
     \<and> returns (fst (formatDollars H (JBool True) c))
     \<and> returns (fst (formatCPM H (JBool True) c))
     \<and> returns (fst (formatPercent H (JBool True) None c))
     \<and> returns (fst (formatPercent0 H (JBool True) c))
     \<and> returns (fst (formatPercent1 H (JBool True) c))
     \<and> returns (fst (formatFixed H (JBool True) None c))
     \<and> returns (fst (formatFixed0 H (JBool True) c))
     \<and> returns (fst (formatFixed1 H (JBool True) c))
     \<and> returns (fst (formatFixed2 H (JBool True) c))
     \<and> returns (fst (formatThousands H (JBool True) c))
     \<and> nullish_or_number JNull \<and> returns (formatCalibration H JNull)
     \<and> \<not> isValidNumber H (JNum PosInf) \<and> returns (formatCalibration H (JNum PosInf))
     \<and> returns (truncate H (JStr (js ''hi'')) 5)"
proof (intro allI)
  fix H c
  have h: "nullish_or_number JNull" by simp
  have i: "\<not> isValidNumber H (JNum PosInf)" by (simp add: isValidNumber_simps)
  show "returns (fst (formatCurrency H (JBool True) None c))
     \<and> returns (fst (formatDollars H (JBool True) c))
     \<and> returns (fst (formatCPM H (JBool True) c))
     \<and> returns (fst (formatPercent H (JBool True) None c))
     \<and> returns (fst (formatPercent0 H (JBool True) c))
     \<and> returns (fst (formatPercent1 H (JBool True) c))
     \<and> returns (fst (formatFixed H (JBool True) None c))
     \<and> returns (fst (formatFixed0 H (JBool True) c))
     \<and> returns (fst (formatFixed1 H (JBool True) c))
     \<and> returns (fst (formatFixed2 H (JBool True) c))
     \<and> returns (fst (formatThousands H (JBool True) c))
     \<and> nullish_or_number JNull \<and> returns (formatCalibration H JNull)
     \<and> \<not> isValidNumber H (JNum PosInf) \<and> returns (formatCalibration H (JNum PosInf))
     \<and> returns (truncate H (JStr (js ''hi'')) 5)"
    using h i formatters_return [of H "JBool True" c "js ''hi''" 5]
      formatters_return [of H JNull c "js ''hi''" 5]
      formatters_return [of H "JNum PosInf" c "js ''hi''" 5]
    by blast
qed

text \<open>
  The values left out for \<^verbatim>\<open>formatCalibration\<close> are those that pass
  \<^verbatim>\<open>isValidNumber\<close> and are no number: a boolean, or a string that reads as a finite
  number. They have no \<^verbatim>\<open>toFixed\<close>, and the call raises a \<^verbatim>\<open>TypeError\<close>; the
  eleven other formatters hand such a value to \<^verbatim>\<open>Intl.NumberFormat\<close>, which
  converts it.
\<close>

lemma formatCalibration_boolean: "formatCalibration H (JBool True) = Inl TypeError"
  by (simp add: formatCalibration_def isValidNumber_def isFinite_def)

lemma formatCalibration_numeric_string: "formatCalibration H (JStr (js ''5'')) = Inl TypeError"
  by (simp add: formatCalibration_def isValidNumber_def isFinite_def string_to_number_def
      is_digit_def js_def)

section \<open>truncate\<close>

lemma truncate_short: "int (length s) \<le> n \<Longrightarrow> truncate H (JStr s) n = Inr s"
  by simp

text \<open>
  When \<^verbatim>\<open>substring\<close> reads the string as the start index 0, a string longer than
  \<open>n \<ge> 1\<close> is cut to its first \<open>n - 1\<close> units and the ellipsis, \<open>n\<close> units in all.
\<close>

lemma truncate_prefix:
  assumes "clamp_index (length s) (string_to_number H s) = 0" and "1 \<le> n" and "n < int (length s)"
  shows "truncate H (JStr s) n = Inr (take (nat (n - 1)) s @ [ellipsis])"
    and "\<exists>r. truncate H (JStr s) n = Inr r \<and> int (length r) = n"
proof -
  have b: "clamp_index (length s) (Fin (of_int (n - 1))) = nat (n - 1)"
    using assms(2,3) by (auto simp: min_def)
  show "truncate H (JStr s) n = Inr (take (nat (n - 1)) s @ [ellipsis])"
    using assms b by (simp add: substring_def)
  then show "\<exists>r. truncate H (JStr s) n = Inr r \<and> int (length r) = n"
    using assms(2,3) by simp
qed

lemma truncate_examples:
  "StringToNumber H (js ''hello world'') = NaN \<Longrightarrow>
     truncate H (JStr (js ''hello world'')) 5 = Inr (js ''hell'' @ [ellipsis])"
  "truncate H (JStr (js ''hi'')) 5 = Inr (js ''hi'')"
  by (simp_all add: js_def substring_def string_to_number_def is_digit_def)

text \<open>
  Claim C6. \<^verbatim>\<open>truncate(s, n)\<close> returns \<^verbatim>\<open>s\<close> when \<^verbatim>\<open>s.length <= n\<close> and the
  first \<open>n - 1\<close> characters of \<^verbatim>\<open>s\<close> with the ellipsis otherwise, never more than
  \<open>n\<close> characters. The source calls \<^verbatim>\<open>s.substring(s, length - 1)\<close>, with the
  string where the start index 0 belongs. A string of digits is a number: the cut then
  starts there, and \<^verbatim>\<open>substring\<close> swaps the two ends. With the maximal length 5 the
  eight digits \<^verbatim>\<open>12345678\<close> give \<^verbatim>\<open>5678\<close> and the ellipsis, not \<^verbatim>\<open>1234\<close>; with
  the maximal length 2 they give eight characters.
\<close>

theorem truncate_digits:
  "truncate H (JStr (js ''12345678'')) 5 = Inr (js ''5678'' @ [ellipsis])
   \<and> truncate H (JStr (js ''12345678'')) 2 = Inr (js ''2345678'' @ [ellipsis])"
  by (simp add: js_def substring_def string_to_number_def is_digit_def)

section \<open>formatColumnName\<close>

lemma formatColumnName_examples:
  "formatColumnName H (js ''user-id'') = Inr (js ''User ID'')"
  "upperNonAscii H Delta = [Delta] \<Longrightarrow>
     formatColumnName H (js ''spend-delta'') = Inr (js ''Spend '' @ [Delta])"
  by (simp_all add: formatColumnName_def js_def replace_at_end_def toUpperCase_def Delta_def)

text \<open>A key with an empty segment has no first letter to capitalize.\<close>

lemma formatColumnName_empty_segment:
  "formatColumnName H (js '''') = Inl TypeError"
  "formatColumnName H (js ''a--b'') = Inl TypeError"
  by (simp_all add: formatColumnName_def js_def replace_at_end_def toUpperCase_def)

text \<open>
  Claim C4. The humanized column name replaces a final \<^verbatim>\<open>-id\<close> by \<^verbatim>\<open>-ID\<close>,
  \<^verbatim>\<open>percent\<close> and \<^verbatim>\<open>pct\<close> by \<^verbatim>\<open>%\<close> and \<^verbatim>\<open>delta\<close> by the Greek letter, splits
  on \<^verbatim>\<open>-\<close>, capitalizes the first letter of each segment and joins with spaces; in
  particular \<^verbatim>\<open>pct-qps\<close> gives \<^verbatim>\<open>% QPS\<close>. The code capitalizes the first letter
  only: \<^verbatim>\<open>pct-qps\<close> gives \<^verbatim>\<open>% Qps\<close>, against the claim and against the comment above
  the function in the source.
\<close>

theorem formatColumnName_pct_qps:
  "formatColumnName H (js ''pct-qps'') = Inr (js ''% Qps'')
   \<and> formatColumnName H (js ''pct-qps'') \<noteq> Inr (js ''% QPS'')"
  by (simp add: formatColumnName_def js_def replace_at_end_def toUpperCase_def)

section \<open>The sort state\<close>

lemma json_of_JsonString: "json_of v = Some (JsonString s) \<longleftrightarrow> v = JStr s"
  by (cases v rule: json_of.cases) auto

text \<open>On objects with string values the text of \<^verbatim>\<open>JSON.stringify\<close> determines the object.\<close>

lemma json_properties_string_valued:
  "string_valued a \<Longrightarrow> string_valued b \<Longrightarrow> json_properties a = json_properties b \<Longrightarrow> a = b"
proof (induction a arbitrary: b)
  case Nil
  then show ?case
    by (cases b) (auto simp: string_valued_def split: jsval.splits)
next
  case (Cons kv a)
  obtain k s where kv: "kv = (k, JStr s)"
    using Cons.prems(1) by (cases kv) (auto simp: string_valued_def split: jsval.splits)
  show ?case
  proof (cases b)
    case Nil
    then show ?thesis using Cons.prems kv by simp
  next
    case (Cons kv' b')
    obtain k' s' where kv': "kv' = (k', JStr s')"
      using Cons.prems(2) Cons by (cases kv') (auto simp: string_valued_def split: jsval.splits)
    have "string_valued a" "string_valued b'"
      using Cons.prems(1,2) Cons by (simp_all add: string_valued_def)
    moreover have "json_properties a = json_properties b'" "kv = kv'"
      using Cons.prems(3) Cons kv kv' by simp_all
    ultimately show ?thesis using Cons.IH Cons by simp
  qed
qed

lemma json_properties_map_of:
  "distinct (map fst obj) \<Longrightarrow> (k, j) \<in> set (json_properties obj) \<Longrightarrow>
   \<exists>v. map_of obj k = Some v \<and> json_of v = Some j"
proof (induction obj)
  case Nil
  then show ?case by simp
next
  case (Cons kv obj)
  obtain k' v' where kv: "kv = (k', v')" by (cases kv)
  have sub: "(k, j) \<in> set (json_properties obj) \<Longrightarrow> k \<in> fst ` set obj" for k j
    by (induction obj) (auto split: option.splits)
  show ?case
  proof (cases "k = k'")
    case True
    have "(k, j) \<notin> set (json_properties obj)"
      using Cons.prems(1) kv True sub by auto
    then show ?thesis using Cons.prems(2) kv True by (auto split: option.splits)
  next
    case False
    then show ?thesis using Cons kv by (auto split: option.splits)
  qed
qed

lemma stringify_sort_state:
  assumes "distinct (map fst so)"
    and "JSON_stringify (Some so) = JSON_stringify (Some (sort_state c ord))"
  shows "get so (js ''column'') = JStr c \<and> get so (js ''order'') = JStr ord"
proof -
  have eq: "json_properties so = [(js ''column'', JsonString c), (js ''order'', JsonString ord)]"
    using assms(2) by (simp add: JSON_stringify_def sort_state_def)
  have "(js ''column'', JsonString c) \<in> set (json_properties so)"
    and "(js ''order'', JsonString ord) \<in> set (json_properties so)"
    by (simp_all add: eq)
  then show ?thesis
    using json_properties_map_of [OF assms(1)] by (fastforce simp: get_def json_of_JsonString)
qed

lemma js_asc_desc: "js ''asc'' \<noteq> js ''desc''"
  by (simp add: js_def)

text \<open>
  Claim C7. \<^verbatim>\<open>setSortOptions(next)\<close> leaves the stored sort state as it is when
  \<^verbatim>\<open>next\<close> is deep-equal to it, whatever the order of the keys, and stores \<^verbatim>\<open>next\<close>
  otherwise. The code compares the two \<^verbatim>\<open>JSON.stringify\<close> texts, which list the keys in
  their order: a \<^verbatim>\<open>next\<close> with the keys of the stored state the other way round is
  deep-equal to it, and is stored in its place.
\<close>

theorem setSortOptions_key_order:
  "deep_equal (sort_state (js ''a'') (js ''asc''))
              [(js ''order'', JStr (js ''asc'')), (js ''column'', JStr (js ''a''))]
   \<and> sortOptions (setSortOptions (table_with (Some (sort_state (js ''a'') (js ''asc''))) JUndefined)
                    (Some [(js ''order'', JStr (js ''asc'')), (js ''column'', JStr (js ''a''))]))
       = Some [(js ''order'', JStr (js ''asc'')), (js ''column'', JStr (js ''a''))]
   \<and> sortOptions (setSortOptions (table_with (Some (sort_state (js ''a'') (js ''asc''))) JUndefined)
                    (Some [(js ''order'', JStr (js ''asc'')), (js ''column'', JStr (js ''a''))]))
       \<noteq> sortOptions (table_with (Some (sort_state (js ''a'') (js ''asc''))) JUndefined)"
  by (auto simp: deep_equal_def sort_state_def get_def js_def setSortOptions_def table_with_def
      constructor_def JSON_stringify_def)

text \<open>
  Claim C7, amended. For sort states whose property values are strings,
  \<^verbatim>\<open>setSortOptions(next)\<close> leaves the component as it is exactly when \<^verbatim>\<open>next\<close> has
  the properties of the stored state with the same values in the same order; in every
  other case, a deep-equal \<^verbatim>\<open>next\<close> with the keys in another order included, the stored
  state becomes \<^verbatim>\<open>next\<close> and nothing else changes.
\<close>

theorem setSortOptions_string_valued:
  assumes "string_valued cur" and "string_valued next" and "sortOptions t = Some cur"
  shows "(next = cur \<longrightarrow> setSortOptions t (Some next) = t)
       \<and> (next \<noteq> cur \<longrightarrow> setSortOptions t (Some next) = t\<lparr>sortOptions := Some next\<rparr>
                          \<and> sortOptions (setSortOptions t (Some next)) \<noteq> sortOptions t)"
proof -
  have "JSON_stringify (Some cur) = JSON_stringify (Some next) \<longleftrightarrow> cur = next"
    using json_properties_string_valued [OF assms(1,2)] by (auto simp: JSON_stringify_def)
  then show ?thesis using assms(3) by (auto simp: setSortOptions_def)
qed

theorem setSortOptions_string_valued_witness:
  "string_valued (sort_state (js ''a'') (js ''asc''))
   \<and> string_valued [(js ''order'', JStr (js ''asc'')), (js ''column'', JStr (js ''a''))]
   \<and> sortOptions (table_with (Some (sort_state (js ''a'') (js ''asc''))) JUndefined)
       = Some (sort_state (js ''a'') (js ''asc''))
   \<and> setSortOptions (table_with (Some (sort_state (js ''a'') (js ''asc''))) JUndefined)
        (Some [(js ''order'', JStr (js ''asc'')), (js ''column'', JStr (js ''a''))])
       = (table_with (Some (sort_state (js ''a'') (js ''asc''))) JUndefined)
           \<lparr>sortOptions := Some [(js ''order'', JStr (js ''asc'')), (js ''column'', JStr (js ''a''))]\<rparr>
   \<and> setSortOptions (table_with (Some (sort_state (js ''a'') (js ''asc''))) JUndefined)
        (Some (sort_state (js ''a'') (js ''asc'')))
       = table_with (Some (sort_state (js ''a'') (js ''asc''))) JUndefined"
proof -
  let ?cur = "sort_state (js ''a'') (js ''asc'')"
  let ?next = "[(js ''order'', JStr (js ''asc'')), (js ''column'', JStr (js ''a''))]"
  let ?t = "table_with (Some ?cur) JUndefined"
  have a: "string_valued ?cur" by (simp add: string_valued_def sort_state_def)
  have b: "string_valued ?next" by (simp add: string_valued_def)
  have c: "sortOptions ?t = Some ?cur" by (simp add: table_with_def constructor_def)
  have d: "?next \<noteq> ?cur" by (simp add: sort_state_def js_def)
  show ?thesis
    using a b c d setSortOptions_string_valued [OF a b c]
      setSortOptions_string_valued [OF a a c]
    by simp
qed

section \<open>Header clicks\<close>

text \<open>
  Claim C2. A click on a header cell of the column that is the current sort column flips
  the direction between \<^verbatim>\<open>"asc"\<close> and \<^verbatim>\<open>"desc"\<close> and keeps the column; a click on
  another column, or with no sort state set, makes the sort state that column with the
  direction \<^verbatim>\<open>"desc"\<close>; in every case one \<^verbatim>\<open>sortChange\<close> event carries the new sort
  state. The header cell clicked is one of the rendered columns, and the stored sort
  state is an object, its keys distinct. Nothing but the sort state changes.
\<close>

theorem onClick_header:
  assumes cols: "renderedColumns t = Some cols" and i: "i < length cols"
    and wf: "\<forall>so. sortOptions t = Some so \<longrightarrow> distinct (map fst so)"
  shows "\<exists>t' ord. onClick H t h (TH i) = Inr (t', [SortChange (sortOptions t')])
          \<and> t' = t\<lparr>sortOptions := Some (sort_state (cols ! i) ord)\<rparr>
          \<and> (sortOptions t = None \<longrightarrow> ord = js ''desc'')
          \<and> (\<forall>so. sortOptions t = Some so \<and> get so (js ''column'') = JStr (cols ! i)
                 \<and> get so (js ''order'') = JStr (js ''asc'') \<longrightarrow> ord = js ''desc'')
          \<and> (\<forall>so. sortOptions t = Some so \<and> get so (js ''column'') = JStr (cols ! i)
                 \<and> get so (js ''order'') = JStr (js ''desc'') \<longrightarrow> ord = js ''asc'')
          \<and> (\<forall>so c. sortOptions t = Some so \<and> get so (js ''column'') = JStr c \<and> c \<noteq> cols ! i
                 \<longrightarrow> ord = js ''desc'')"
proof (cases "sortOptions t")
  case None
  then show ?thesis using cols i
    by (simp add: onClick_def element_at_def setSortOptions_def JSON_stringify_def
        sort_state_def Let_def)
next
  case (Some so)
  define c where "c = cols ! i"
  define same where "same = loose_eq H (get so (js ''column'')) (JStr c)"
  define ord where "ord =
     (if same
      then (if loose_eq H (get so (js ''order'')) (JStr (js ''asc'')) then js ''desc'' else js ''asc'')
      else js ''desc'')"
  have d: "distinct (map fst so)" using wf Some by simp
  have neq: "JSON_stringify (Some so) \<noteq> JSON_stringify (Some (sort_state c ord))"
  proof
    assume "JSON_stringify (Some so) = JSON_stringify (Some (sort_state c ord))"
    then have g: "get so (js ''column'') = JStr c" "get so (js ''order'') = JStr ord"
      using stringify_sort_state [OF d] by auto
    then have "same" by (simp add: same_def)
    then show False using g(2) js_asc_desc by (auto simp: ord_def split: if_splits)
  qed
  have step: "onClick H t h (TH i) =
      (let t' = setSortOptions t (Some (sort_state c ord))
       in Inr (t', [SortChange (sortOptions t')]))"
    using cols i Some
    by (cases same; cases "loose_eq H (get so (js ''order'')) (JStr (js ''asc''))")
       (simp_all add: onClick_def element_at_def sort_state_def c_def ord_def same_def Let_def)
  have "setSortOptions t (Some (sort_state c ord)) = t\<lparr>sortOptions := Some (sort_state c ord)\<rparr>"
    using neq Some by (simp add: setSortOptions_def)
  then have run: "onClick H t h (TH i) =
      Inr (t\<lparr>sortOptions := Some (sort_state c ord)\<rparr>, [SortChange (Some (sort_state c ord))])"
    using step by simp
  have "ord = js ''desc''"
    if "get so (js ''column'') = JStr c" "get so (js ''order'') = JStr (js ''asc'')"
    using that by (simp add: ord_def same_def)
  moreover have "ord = js ''asc''"
    if "get so (js ''column'') = JStr c" "get so (js ''order'') = JStr (js ''desc'')"
    using that js_asc_desc by (simp add: ord_def same_def)
  moreover have "ord = js ''desc''" if "get so (js ''column'') = JStr c'" "c' \<noteq> c" for c'
    using that by (simp add: ord_def same_def)
  ultimately show ?thesis using run Some unfolding c_def by auto
qed

theorem onClick_header_witness:
  "\<forall>H h.
     renderedColumns ((table_with (Some (sort_state (js ''views'') (js ''asc''))) JUndefined)
                        \<lparr>renderedColumns := Some [js ''name'', js ''views'']\<rparr>)
       = Some [js ''name'', js ''views'']
     \<and> 1 < length [js ''name'', js ''views'']
     \<and> distinct (map fst (sort_state (js ''views'') (js ''asc'')))
     \<and> onClick H ((table_with (Some (sort_state (js ''views'') (js ''asc''))) JUndefined)
                    \<lparr>renderedColumns := Some [js ''name'', js ''views'']\<rparr>) h (TH 1)
       = Inr ((table_with (Some (sort_state (js ''views'') (js ''asc''))) JUndefined)
                \<lparr>renderedColumns := Some [js ''name'', js ''views''],
                 sortOptions := Some (sort_state (js ''views'') (js ''desc''))\<rparr>,
              [SortChange (Some (sort_state (js ''views'') (js ''desc'')))])"
proof (intro allI)
  fix H :: host and h :: heap
  let ?so = "sort_state (js ''views'') (js ''asc'')"
  let ?cols = "[js ''name'', js ''views'']"
  let ?t = "(table_with (Some ?so) JUndefined)\<lparr>renderedColumns := Some ?cols\<rparr>"
  have a: "renderedColumns ?t = Some ?cols" by simp
  have b: "1 < length ?cols" by simp
  have d: "distinct (map fst ?so)" by (simp add: sort_state_def js_def)
  have s: "sortOptions ?t = Some ?so" by (simp add: table_with_def constructor_def)
  have c: "\<forall>so. sortOptions ?t = Some so \<longrightarrow> distinct (map fst so)" using d s by simp
  have g: "get ?so (js ''column'') = JStr (?cols ! 1)" "get ?so (js ''order'') = JStr (js ''asc'')"
    by (simp_all add: sort_state_def get_def js_def)
  obtain t' ord where r: "onClick H ?t h (TH 1) = Inr (t', [SortChange (sortOptions t')])"
      "t' = ?t\<lparr>sortOptions := Some (sort_state (?cols ! 1) ord)\<rparr>"
      "\<forall>so. sortOptions ?t = Some so \<and> get so (js ''column'') = JStr (?cols ! 1)
            \<and> get so (js ''order'') = JStr (js ''asc'') \<longrightarrow> ord = js ''desc''"
    using onClick_header [OF a b c, of H h] by blast
  have "ord = js ''desc''" using r(3) s g by blast
  then show "renderedColumns ?t = Some ?cols \<and> 1 < length ?cols \<and> distinct (map fst ?so)
     \<and> onClick H ?t h (TH 1)
       = Inr ((table_with (Some ?so) JUndefined)
                \<lparr>renderedColumns := Some ?cols,
                 sortOptions := Some (sort_state (js ''views'') (js ''desc''))\<rparr>,
              [SortChange (Some (sort_state (js ''views'') (js ''desc'')))])"
    using a b d r(1,2) by simp
qed


section \<open>Comparing cell values\<close>

lemma str_lt_irrefl: "\<not> str_lt s s"
  by (induction s) auto

lemma str_lt_trans: "str_lt a b \<Longrightarrow> str_lt b c \<Longrightarrow> str_lt a c"
proof (induction a arbitrary: b c)
  case Nil
  then show ?case by (cases b; cases c) auto
next
  case (Cons x a)
  obtain y b' where b: "b = y # b'" using Cons.prems(1) by (cases b) auto
  obtain z c' where c: "c = z # c'" using Cons.prems(2) b by (cases c) auto
  show ?case
    using Cons.prems Cons.IH [of b' c'] unfolding b c by auto
qed

lemma str_lt_total: "str_lt a b \<or> a = b \<or> str_lt b a"
proof (induction a arbitrary: b)
  case Nil
  then show ?case by (cases b) auto
next
  case (Cons x a)
  show ?case
  proof (cases b)
    case Nil
    then show ?thesis by simp
  next
    case (Cons y b')
    then show ?thesis using Cons.IH [of b'] by auto
  qed
qed

lemma str_lt_asym: "str_lt a b \<Longrightarrow> \<not> str_lt b a"
  using str_lt_irrefl [of a] str_lt_trans [of a b a] by blast

lemma str_lt_negtrans:
  assumes "\<not> str_lt a b" "\<not> str_lt b c"
  shows "\<not> str_lt a c"
proof
  assume ac: "str_lt a c"
  have "a = b \<or> str_lt b a" using assms(1) str_lt_total [of a b] by blast
  then have "str_lt b c" using ac str_lt_trans [of b a c] by blast
  then show False using assms(2) by simp
qed

lemma num_lt_asym: "num_lt x y \<Longrightarrow> \<not> num_lt y x"
  by (cases x; cases y) auto

lemma num_lt_negtrans:
  "x \<noteq> NaN \<Longrightarrow> y \<noteq> NaN \<Longrightarrow> z \<noteq> NaN \<Longrightarrow> \<not> num_lt x y \<Longrightarrow> \<not> num_lt y z \<Longrightarrow> \<not> num_lt x z"
  by (cases x; cases y; cases z) auto

lemma js_lt_num: "\<not> is_string x \<Longrightarrow> js_lt H x y = num_lt (to_number H x) (to_number H y)"
  by (cases x; cases y) auto

lemma js_lt_asym: "js_lt H a b \<Longrightarrow> \<not> js_lt H b a"
proof (cases "is_string a \<and> is_string b")
  case True
  then obtain s t where "a = JStr s" "b = JStr t" by (cases a; cases b) auto
  then show "js_lt H a b \<Longrightarrow> \<not> js_lt H b a" using str_lt_asym by simp
next
  case False
  then have "js_lt H a b = num_lt (to_number H a) (to_number H b)"
    and "js_lt H b a = num_lt (to_number H b) (to_number H a)"
    by (cases a; cases b; simp)+
  then show "js_lt H a b \<Longrightarrow> \<not> js_lt H b a" using num_lt_asym by simp
qed

lemma js_lt_negtrans:
  assumes "comparable H vs" "a \<in> set vs" "b \<in> set vs" "c \<in> set vs"
    and "\<not> js_lt H a b" "\<not> js_lt H b c"
  shows "\<not> js_lt H a c"
proof -
  consider (str) "list_all is_string vs"
    | (num) "list_all (\<lambda>v. \<not> is_string v \<and> to_number H v \<noteq> NaN) vs"
    using assms(1) by (auto simp: comparable_def)
  then show ?thesis
  proof cases
    case str
    then have "is_string a" "is_string b" "is_string c"
      using assms(2-4) by (simp_all add: list_all_iff)
    then obtain s1 s2 s3 where "a = JStr s1" "b = JStr s2" "c = JStr s3"
      by (cases a; cases b; cases c) auto
    then show ?thesis using assms(5,6) str_lt_negtrans [of s1 s2 s3] by simp
  next
    case num
    then have n: "\<not> is_string a" "\<not> is_string b" "\<not> is_string c"
      "to_number H a \<noteq> NaN" "to_number H b \<noteq> NaN" "to_number H c \<noteq> NaN"
      using assms(2-4) by (simp_all add: list_all_iff)
    show ?thesis
      using assms(5,6) n num_lt_negtrans [of "to_number H a" "to_number H b" "to_number H c"]
      by (simp add: js_lt_num)
  qed
qed


section \<open>The sort\<close>

text \<open>
  The sort rearranges the rows and, for a comparison that is transitive and total on
  them, leaves them in order.
\<close>

lemma set_insert_by: "set (insert_by cmp x ys) = insert x (set ys)"
  by (induction ys) auto

lemma mset_insert_by: "mset (insert_by cmp x ys) = add_mset x (mset ys)"
  by (induction ys) auto

lemma mset_array_sort: "mset (array_sort cmp xs) = mset xs"
  by (induction xs) (simp_all add: array_sort_def mset_insert_by)

lemma set_array_sort: "set (array_sort cmp xs) = set xs"
  using mset_array_sort [of cmp xs] by (rule mset_eq_setD)

lemma length_array_sort: "length (array_sort cmp xs) = length xs"
  using mset_array_sort [of cmp xs] by (rule mset_eq_length)

lemma sorted_wrt_insert_by:
  assumes tr: "\<And>a b c. a \<in> S \<Longrightarrow> b \<in> S \<Longrightarrow> c \<in> S \<Longrightarrow> cmp a b \<le> 0 \<Longrightarrow> cmp b c \<le> 0 \<Longrightarrow> cmp a c \<le> 0"
    and tot: "\<And>a b. a \<in> S \<Longrightarrow> b \<in> S \<Longrightarrow> cmp a b \<le> 0 \<or> cmp b a \<le> 0"
    and "x \<in> S" "set ys \<subseteq> S" "sorted_wrt (\<lambda>a b. cmp a b \<le> 0) ys"
  shows "sorted_wrt (\<lambda>a b. cmp a b \<le> 0) (insert_by cmp x ys)"
  using assms(3-5)
proof (induction ys)
  case Nil
  then show ?case by simp
next
  case (Cons y ys)
  show ?case
  proof (cases "cmp x y \<le> 0")
    case True
    have "cmp x z \<le> 0" if "z \<in> set ys" for z
    proof -
      have "cmp y z \<le> 0" using that Cons.prems(3) by simp
      then show ?thesis using tr [of x y z] True that Cons.prems(1,2) by auto
    qed
    then show ?thesis using True Cons.prems(3) by simp
  next
    case False
    then have yx: "cmp y x \<le> 0" using tot [of x y] Cons.prems(1,2) by auto
    have "sorted_wrt (\<lambda>a b. cmp a b \<le> 0) (insert_by cmp x ys)"
      using Cons.IH Cons.prems by simp
    then show ?thesis using False yx Cons.prems(3) by (simp add: set_insert_by)
  qed
qed

lemma sorted_wrt_array_sort:
  assumes tr: "\<And>a b c. a \<in> S \<Longrightarrow> b \<in> S \<Longrightarrow> c \<in> S \<Longrightarrow> cmp a b \<le> 0 \<Longrightarrow> cmp b c \<le> 0 \<Longrightarrow> cmp a c \<le> 0"
    and tot: "\<And>a b. a \<in> S \<Longrightarrow> b \<in> S \<Longrightarrow> cmp a b \<le> 0 \<or> cmp b a \<le> 0"
    and "set xs \<subseteq> S"
  shows "sorted_wrt (\<lambda>a b. cmp a b \<le> 0) (array_sort cmp xs)"
  using assms(3)
proof (induction xs)
  case Nil
  then show ?case by (simp add: array_sort_def)
next
  case (Cons x xs)
  have "sorted_wrt (\<lambda>a b. cmp a b \<le> 0) (array_sort cmp xs)"
    using Cons by simp
  moreover have "x \<in> S" "set (array_sort cmp xs) \<subseteq> S"
    using Cons.prems by (simp_all add: set_array_sort)
  ultimately have "sorted_wrt (\<lambda>a b. cmp a b \<le> 0) (insert_by cmp x (array_sort cmp xs))"
    using sorted_wrt_insert_by [of S cmp x "array_sort cmp xs"] tr tot by blast
  then show ?case by (simp add: array_sort_def)
qed

lemma compare_le0: "compare H a b \<le> 0 \<longleftrightarrow> \<not> js_lt H b a"
  using js_lt_asym [of H a b] by (simp add: compare_def)

lemma array_sort_ascending:
  assumes "comparable H (map (\<lambda>r. get r c) rs)"
  shows "sorted_wrt (\<lambda>a b. \<not> js_lt H (get b c) (get a c))
           (array_sort (\<lambda>a b. compare H (get a c) (get b c)) rs)"
proof -
  let ?cmp = "\<lambda>a b. compare H (get a c) (get b c)"
  have mem: "get r c \<in> set (map (\<lambda>r. get r c) rs)" if "r \<in> set rs" for r using that by simp
  have "sorted_wrt (\<lambda>a b. ?cmp a b \<le> 0) (array_sort ?cmp rs)"
  proof (rule sorted_wrt_array_sort [where S = "set rs"])
    fix x y z assume "x \<in> set rs" "y \<in> set rs" "z \<in> set rs" "?cmp x y \<le> 0" "?cmp y z \<le> 0"
    then show "?cmp x z \<le> 0"
      using js_lt_negtrans [OF assms, of "get z c" "get y c" "get x c"] mem
      by (simp add: compare_le0)
  next
    fix x y show "?cmp x y \<le> 0 \<or> ?cmp y x \<le> 0"
      using js_lt_asym [of H "get x c" "get y c"] by (auto simp: compare_le0)
  qed simp
  then show ?thesis by (simp add: compare_le0)
qed

lemma array_sort_descending:
  assumes "comparable H (map (\<lambda>r. get r c) rs)"
  shows "sorted_wrt (\<lambda>a b. \<not> js_lt H (get a c) (get b c))
           (array_sort (\<lambda>a b. compare H (get b c) (get a c)) rs)"
proof -
  let ?cmp = "\<lambda>a b. compare H (get b c) (get a c)"
  have mem: "get r c \<in> set (map (\<lambda>r. get r c) rs)" if "r \<in> set rs" for r using that by simp
  have "sorted_wrt (\<lambda>a b. ?cmp a b \<le> 0) (array_sort ?cmp rs)"
  proof (rule sorted_wrt_array_sort [where S = "set rs"])
    fix x y z assume "x \<in> set rs" "y \<in> set rs" "z \<in> set rs" "?cmp x y \<le> 0" "?cmp y z \<le> 0"
    then show "?cmp x z \<le> 0"
      using js_lt_negtrans [OF assms, of "get x c" "get y c" "get z c"] mem
      by (simp add: compare_le0)
  next
    fix x y show "?cmp x y \<le> 0 \<or> ?cmp y x \<le> 0"
      using js_lt_asym [of H "get x c" "get y c"] by (auto simp: compare_le0)
  qed simp
  then show ?thesis by (simp add: compare_le0)
qed

text \<open>
  The sort looks at the comparison on the rows it sorts only; values that the comparison
  orders consistently are values of the rows' own properties.
\<close>

lemma array_sort_Cons: "array_sort cmp (x # xs) = insert_by cmp x (array_sort cmp xs)"
  by (simp add: array_sort_def)

lemma insert_by_cong:
  "(\<And>y. y \<in> set ys \<Longrightarrow> cmp1 x y = cmp2 x y) \<Longrightarrow> insert_by cmp1 x ys = insert_by cmp2 x ys"
  by (induction ys) auto

lemma array_sort_cong:
  "(\<And>x y. x \<in> set xs \<Longrightarrow> y \<in> set xs \<Longrightarrow> cmp1 x y = cmp2 x y) \<Longrightarrow>
     array_sort cmp1 xs = array_sort cmp2 xs"
proof (induction xs)
  case Nil
  then show ?case by (simp add: array_sort_def)
next
  case (Cons x xs)
  have ih: "array_sort cmp1 xs = array_sort cmp2 xs"
    using Cons by simp
  have "insert_by cmp1 x (array_sort cmp2 xs) = insert_by cmp2 x (array_sort cmp2 xs)"
    by (rule insert_by_cong) (simp add: set_array_sort Cons.prems)
  then show ?case by (simp add: array_sort_Cons ih)
qed

lemma read_own: "get r c \<noteq> JUndefined \<Longrightarrow> read r c = Primitive (get r c)"
  by (simp add: read_def get_def split: option.splits)

lemma comparable_own:
  assumes "comparable H (map (\<lambda>r. get r c) rs)" and "r \<in> set rs"
  shows "to_primitive H (read r c) = get r c"
proof -
  have "is_string (get r c) \<or> to_number H (get r c) \<noteq> NaN"
    using assms by (auto simp: comparable_def list_all_iff)
  then have "get r c \<noteq> JUndefined" by auto
  then show ?thesis by (simp add: read_own to_primitive_def)
qed

lemma comparator_column:
  assumes "get so (js ''column'') = JStr c" and "comparable H (map (\<lambda>r. get r c) rs)"
  shows "get so (js ''order'') = JStr (js ''asc'') \<Longrightarrow>
           array_sort (comparator H so) rs = array_sort (\<lambda>a b. compare H (get a c) (get b c)) rs"
    and "get so (js ''order'') = JStr ord \<Longrightarrow> ord \<noteq> js ''asc'' \<Longrightarrow>
           array_sort (comparator H so) rs = array_sort (\<lambda>a b. compare H (get b c) (get a c)) rs"
proof -
  note own = comparable_own [OF assms(2)]
  show "array_sort (comparator H so) rs = array_sort (\<lambda>a b. compare H (get a c) (get b c)) rs"
    if "get so (js ''order'') = JStr (js ''asc'')"
    by (rule array_sort_cong) (simp add: comparator_def assms(1) that own)
  show "array_sort (comparator H so) rs = array_sort (\<lambda>a b. compare H (get b c) (get a c)) rs"
    if "get so (js ''order'') = JStr ord" "ord \<noteq> js ''asc''"
    by (rule array_sort_cong) (simp add: comparator_def assms(1) that own)
qed


section \<open>renderRows, stage by stage\<close>

text \<open>
  On a sequence that is not empty the call sorts, then computes the column styles, the
  header cells, the sort indicator and the body rows; the first stage that raises ends
  the call.
\<close>

lemma renderRows_unfold:
  fixes H :: host and t :: datatable and h :: heap and a :: addr
  assumes "h a \<noteq> []"
  defines "rs \<equiv> sorted_rows H t (h a)"
  defines "cols \<equiv> rendered_columns t rs"
  defines "t1 \<equiv> t\<lparr>rows := Some a, renderedColumns := Some cols\<rparr>"
  shows "renderRows H t h a f =
     (case colStyles H t1 (hd rs) cols of
        Inl e \<Rightarrow> (t1, h(a := rs), Some e)
      | Inr styles \<Rightarrow>
          (case header_cells H t1 (zip cols styles) of
             Inl e \<Rightarrow> (t1, h(a := rs), Some e)
           | Inr ths \<Rightarrow>
               (case sort_indicator H (t1\<lparr>thead := ths\<rparr>) cols of
                  Inl e \<Rightarrow> (t1\<lparr>thead := ths\<rparr>, h(a := rs), Some e)
                | Inr ths' \<Rightarrow>
                    (case body_rows H (t1\<lparr>thead := ths'\<rparr>) f (zip cols styles)
                            (Math_min (Fin (of_nat (length rs))) (to_number H (pageSize t))) 0 rs of
                       Inl e \<Rightarrow> (t1\<lparr>thead := ths'\<rparr>, h(a := rs), Some e)
                     | Inr trs \<Rightarrow> (t1\<lparr>thead := ths', tbody := trs\<rparr>, h(a := rs), None)))))"
proof -
  have "length rs = length (h a)"
    by (simp add: rs_def sorted_rows_def length_array_sort split: option.splits)
  then have ne: "rs \<noteq> []" using assms(1) by auto
  have lc: "(case rs of [] \<Rightarrow> x | row # _ \<Rightarrow> g row) = g (hd rs)" for x :: 'b and g
    using ne by (cases rs) auto
  have heap: "(case sortOptions t of None \<Rightarrow> h
               | Some so \<Rightarrow> h(a := array_sort (comparator H so) (h a))) = h(a := rs)"
    by (simp add: rs_def sorted_rows_def split: option.splits)
  show ?thesis
    unfolding renderRows_def using assms(1)
    by (simp add: Let_def heap lc cols_def rendered_columns_def t1_def cong: sum.case_cong)
qed

lemma returns_iff: "returns r \<longleftrightarrow> (\<exists>x. r = Inr x)"
  by (cases r) (simp_all add: returns_def)

lemma format_cong: "formatters t1 = formatters t2 \<Longrightarrow> format H t1 c r = format H t2 c r"
  by (simp add: format_def cong: option.case_cong)

lemma format_plain:
  "c \<notin> set object_prototype_members \<Longrightarrow>
     format H t c r = (case formatters t c of
                         Some f \<Rightarrow> f (Primitive (get r c)) r
                       | None \<Rightarrow> Inr (to_string H (get r c)))"
  by (simp add: format_def read_def get_def split: option.splits)

lemma row_cells_cong:
  "formatters t1 = formatters t2 \<Longrightarrow> row_cells H t1 r cs = row_cells H t2 r cs"
  by (induction cs) (auto simp: format_cong [of t1 t2] split: sum.splits)

lemma body_rows_cong:
  "formatters t1 = formatters t2 \<Longrightarrow> body_rows H t1 f cs rc i rs = body_rows H t2 f cs rc i rs"
  by (induction rs arbitrary: i) (auto simp: row_cells_cong [of t1 t2] split: sum.splits)

lemma colStyles_cong:
  "formatters t1 = formatters t2 \<Longrightarrow> clickableColumns t1 = clickableColumns t2 \<Longrightarrow>
   colStyles H t1 r cs = colStyles H t2 r cs"
  by (induction cs) (auto simp: format_cong [of t1 t2] Let_def split: sum.splits)

lemma header_cells_cong:
  "columnNames t1 = columnNames t2 \<Longrightarrow> header_cells H t1 cs = header_cells H t2 cs"
  by (induction cs) (auto simp: columnName_def split: sum.splits)

lemma colStyles_length: "colStyles H t row cols = Inr styles \<Longrightarrow> length styles = length cols"
  by (induction cols arbitrary: styles) (auto simp: Let_def split: sum.splits)

lemma colStyles_returns:
  "\<forall>c\<in>set cols. returns (format H t c row) \<Longrightarrow> returns (colStyles H t row cols)"
  by (induction cols) (auto simp: returns_iff Let_def)

lemma header_cells_length: "header_cells H t cs = Inr ths \<Longrightarrow> length ths = length cs"
  by (induction cs arbitrary: ths) (auto split: sum.splits)

lemma header_cells_returns:
  "\<forall>c\<in>set (map fst cs). returns (columnName H t c) \<Longrightarrow> returns (header_cells H t cs)"
  by (induction cs) (auto simp: returns_iff)

lemma index_of_less: "index_of cols c = Some i \<Longrightarrow> i < length cols"
  by (induction cols arbitrary: i) (auto split: if_splits option.splits)

lemma sort_indicator_returns:
  assumes "length (thead t) = length cols"
    and "\<forall>so. sortOptions t = Some so \<longrightarrow> valid_token (to_string H (get so (js ''order'')))"
  shows "returns (sort_indicator H t cols)"
proof (cases "sortOptions t")
  case None
  then show ?thesis by (simp add: sort_indicator_def returns_def)
next
  case (Some so)
  show ?thesis
  proof (cases "indexOf cols (get so (js ''column''))")
    case None
    then show ?thesis using Some by (simp add: sort_indicator_def returns_def)
  next
    case (Some i)
    then have "i < length cols"
      by (auto simp: indexOf_def index_of_less split: jsval.splits)
    moreover have "valid_token (to_string H (get so (js ''order'')))"
      using assms(2) \<open>sortOptions t = Some so\<close> by simp
    ultimately show ?thesis using Some \<open>sortOptions t = Some so\<close> assms(1)
      by (simp add: sort_indicator_def returns_def classList_add_def valid_token_def)
  qed
qed

lemma row_cells_returns:
  "\<forall>c\<in>set (map fst cs). returns (format H t c row) \<Longrightarrow> returns (row_cells H t row cs)"
  by (induction cs) (auto simp: returns_iff)

lemma row_cells_spec:
  "row_cells H t row cs = Inr tds \<Longrightarrow> cells_of H t (map fst cs) row tds"
  by (induction cs arbitrary: tds) (auto simp: cells_of_def split: sum.splits)

lemma body_rows_returns:
  "\<forall>r\<in>set rs. returns (row_cells H t r cs) \<Longrightarrow> returns (body_rows H t f cs rc i rs)"
proof (induction rs arbitrary: i)
  case Nil
  then show ?case by (simp add: returns_def)
next
  case (Cons r rs)
  obtain tds where "row_cells H t r cs = Inr tds"
    using Cons.prems by (auto simp: returns_iff)
  moreover obtain trs where "body_rows H t f cs rc (Suc i) rs = Inr trs"
    using Cons.IH [of "Suc i"] Cons.prems by (auto simp: returns_iff)
  ultimately show ?case by (simp add: returns_def)
qed

lemma body_rows_spec:
  "body_rows H t f cs (Fin (of_nat k)) i rs = Inr trs \<Longrightarrow>
     length trs = min (k - i) (length rs)
     \<and> (\<forall>j<length trs. tr_i (trs ! j) = i + j
            \<and> row_cells H t (rs ! j) cs = Inr (tr_cells (trs ! j)))"
proof (induction rs arbitrary: i trs)
  case Nil
  then show ?case by simp
next
  case (Cons r rs)
  show ?case
  proof (cases "i < k")
    case False
    then show ?thesis using Cons.prems by simp
  next
    case True
    then obtain tds trs' where
      tds: "row_cells H t r cs = Inr tds"
      and rest: "body_rows H t f cs (Fin (of_nat k)) (Suc i) rs = Inr trs'"
      and trs: "trs = \<lparr> tr_i = i, tr_class = (case f of None \<Rightarrow> None
                 | Some g \<Rightarrow> Some (if g r then js ''selected'' else js ''unselected'')),
                 tr_cells = tds \<rparr> # trs'"
      using Cons.prems by (auto simp: Let_def split: sum.splits)
    have ih: "length trs' = min (k - Suc i) (length rs)"
      "\<forall>j<length trs'. tr_i (trs' ! j) = Suc i + j
          \<and> row_cells H t (rs ! j) cs = Inr (tr_cells (trs' ! j))"
      using Cons.IH [OF rest] by simp_all
    have "length trs = min (k - i) (length (r # rs))"
      using ih(1) True trs by (auto simp: min_def)
    moreover have "tr_i (trs ! j) = i + j \<and> row_cells H t ((r # rs) ! j) cs = Inr (tr_cells (trs ! j))"
      if "j < length trs" for j
      using that ih(2) tds trs by (cases j) simp_all
    ultimately show ?thesis by blast
  qed
qed

lemma renderRows_store:
  fixes H :: host and t :: datatable and h :: heap and a :: addr
  assumes "h a \<noteq> []"
  shows "fst (snd (renderRows H t h a f)) = h(a := sorted_rows H t (h a))"
    and "rows (fst (renderRows H t h a f)) = Some a"
proof -
  note unf = renderRows_unfold [where h = h and a = a and H = H and t = t and f = f, OF assms]
  show "fst (snd (renderRows H t h a f)) = h(a := sorted_rows H t (h a))"
    unfolding unf by (simp add: sum.case_distrib [of "\<lambda>r. fst (snd r)"] cong: sum.case_cong)
  show "rows (fst (renderRows H t h a f)) = Some a"
    unfolding unf by (simp add: sum.case_distrib [of "\<lambda>r. rows (fst r)"] cong: sum.case_cong)
qed

lemma body_rows_nth:
  "body_rows H t f cs rc i rs = Inr trs \<Longrightarrow>
     length trs \<le> length rs
     \<and> (\<forall>j<length trs. tr_i (trs ! j) = i + j
            \<and> row_cells H t (rs ! j) cs = Inr (tr_cells (trs ! j)))"
proof (induction rs arbitrary: i trs)
  case Nil
  then show ?case by simp
next
  case (Cons r rs)
  show ?case
  proof (cases "num_lt (Fin (of_nat i)) rc")
    case False
    then show ?thesis using Cons.prems by simp
  next
    case True
    then obtain tds trs' where
      tds: "row_cells H t r cs = Inr tds"
      and rest: "body_rows H t f cs rc (Suc i) rs = Inr trs'"
      and trs: "trs = \<lparr> tr_i = i, tr_class = (case f of None \<Rightarrow> None
                 | Some g \<Rightarrow> Some (if g r then js ''selected'' else js ''unselected'')),
                 tr_cells = tds \<rparr> # trs'"
      using Cons.prems by (auto simp: Let_def split: sum.splits)
    have ih: "length trs' \<le> length rs"
      "\<forall>j<length trs'. tr_i (trs' ! j) = Suc i + j
          \<and> row_cells H t (rs ! j) cs = Inr (tr_cells (trs' ! j))"
      using Cons.IH [OF rest] by simp_all
    have "tr_i (trs ! j) = i + j \<and> row_cells H t ((r # rs) ! j) cs = Inr (tr_cells (trs ! j))"
      if "j < length trs" for j
      using that ih(2) tds trs by (cases j) simp_all
    then show ?thesis using ih(1) trs by simp
  qed
qed

lemma Math_min_nat: "Math_min (Fin (of_nat n)) (Fin (of_nat p)) = Fin (of_nat (min n p))"
  by (simp add: Math_min_def min_def)

lemma cells_of_cong: "formatters t1 = formatters t2 \<Longrightarrow> cells_of H t1 cols r tds = cells_of H t2 cols r tds"
  by (simp add: cells_of_def format_cong [of t1 t2])

text \<open>What a render that raises nothing has put into the body.\<close>

lemma renderRows_body:
  fixes H :: host and t :: datatable and h :: heap and a :: addr
  assumes ne: "h a \<noteq> []" and ok: "snd (snd (renderRows H t h a f)) = None"
  defines "rs \<equiv> sorted_rows H t (h a)"
  defines "body \<equiv> tbody (fst (renderRows H t h a f))"
  shows "length body \<le> length rs"
    and "\<forall>k<length body. tr_i (body ! k) = k
           \<and> cells_of H t (rendered_columns t rs) (rs ! k) (tr_cells (body ! k))"
    and "pageSize t = JNum (Fin (of_nat p)) \<Longrightarrow> length body = min (length (h a)) p"
proof -
  define cols where "cols = rendered_columns t rs"
  define t1 where "t1 = t\<lparr>rows := Some a, renderedColumns := Some cols\<rparr>"
  note unf = renderRows_unfold [where h = h and a = a and H = H and t = t and f = f, OF ne,
      folded rs_def, folded cols_def, folded t1_def]
  obtain styles where st: "colStyles H t1 (hd rs) cols = Inr styles"
    using ok by (cases "colStyles H t1 (hd rs) cols") (simp_all add: unf)
  obtain ths where th: "header_cells H t1 (zip cols styles) = Inr ths"
    using ok by (cases "header_cells H t1 (zip cols styles)") (simp_all add: unf st)
  obtain ths' where th': "sort_indicator H (t1\<lparr>thead := ths\<rparr>) cols = Inr ths'"
    using ok by (cases "sort_indicator H (t1\<lparr>thead := ths\<rparr>) cols") (simp_all add: unf st th)
  define rc where "rc = Math_min (Fin (of_nat (length rs))) (to_number H (pageSize t))"
  obtain trs where bd: "body_rows H (t1\<lparr>thead := ths'\<rparr>) f (zip cols styles) rc 0 rs = Inr trs"
    using ok
    by (cases "body_rows H (t1\<lparr>thead := ths'\<rparr>) f (zip cols styles) rc 0 rs")
       (simp_all add: unf st th th' rc_def)
  have body: "body = trs"
    unfolding body_def unf using bd by (simp add: st th th' rc_def)
  have len: "length styles = length cols" using st by (rule colStyles_length)
  have fm: "formatters (t1\<lparr>thead := ths'\<rparr>) = formatters t" by (simp add: t1_def)
  have n: "length trs \<le> length rs"
    "\<forall>j<length trs. tr_i (trs ! j) = 0 + j
        \<and> row_cells H (t1\<lparr>thead := ths'\<rparr>) (rs ! j) (zip cols styles) = Inr (tr_cells (trs ! j))"
    using body_rows_nth [OF bd] by simp_all
  show "length body \<le> length rs" using n(1) body by simp
  show "\<forall>k<length body. tr_i (body ! k) = k
           \<and> cells_of H t (rendered_columns t rs) (rs ! k) (tr_cells (body ! k))"
  proof (intro allI impI)
    fix k assume "k < length body"
    then have k: "k < length trs" using body by simp
    then have "cells_of H (t1\<lparr>thead := ths'\<rparr>) (map fst (zip cols styles)) (rs ! k) (tr_cells (trs ! k))"
      using n(2) row_cells_spec by blast
    then have "cells_of H t cols (rs ! k) (tr_cells (trs ! k))"
      using len cells_of_cong [OF fm] by simp
    then show "tr_i (body ! k) = k
           \<and> cells_of H t (rendered_columns t rs) (rs ! k) (tr_cells (body ! k))"
      using n(2) k body cols_def by simp
  qed
  show "length body = min (length (h a)) p" if "pageSize t = JNum (Fin (of_nat p))"
  proof -
    have lr: "length rs = length (h a)"
      by (simp add: rs_def sorted_rows_def length_array_sort split: option.splits)
    have "rc = Fin (of_nat (min (length rs) p))"
      using that by (simp add: rc_def Math_min_nat)
    then have "length trs = min (min (length rs) p - 0) (length rs)"
      using body_rows_spec [of H "t1\<lparr>thead := ths'\<rparr>" f "zip cols styles" "min (length rs) p" 0 rs trs] bd
      by simp
    then show ?thesis using body lr by simp
  qed
qed

text \<open>Conditions on the input under which a render raises nothing.\<close>

lemma renderRows_completes:
  fixes H :: host and t :: datatable and h :: heap and a :: addr
  assumes ne: "h a \<noteq> []"
    and cl: "\<forall>r\<in>set (h a). \<forall>c\<in>set (rendered_columns t [r]).
                returns (columnName H t c) \<and> (\<forall>r'\<in>set (h a). returns (format H t c r'))"
    and tk: "\<forall>so. sortOptions t = Some so \<longrightarrow> valid_token (to_string H (get so (js ''order'')))"
  shows "snd (snd (renderRows H t h a f)) = None"
proof -
  define rs where "rs = sorted_rows H t (h a)"
  define cols where "cols = rendered_columns t rs"
  define t1 where "t1 = t\<lparr>rows := Some a, renderedColumns := Some cols\<rparr>"
  note unf = renderRows_unfold [where h = h and a = a and H = H and t = t and f = f, OF ne,
      folded rs_def, folded cols_def, folded t1_def]
  have set_rs: "set rs = set (h a)"
    by (simp add: rs_def sorted_rows_def set_array_sort split: option.splits)
  have "length rs = length (h a)"
    by (simp add: rs_def sorted_rows_def length_array_sort split: option.splits)
  then have "rs \<noteq> []" using ne by auto
  then have "hd rs \<in> set rs" by (rule hd_in_set)
  then have hd: "hd rs \<in> set (h a)" by (simp only: set_rs)
  have cols: "cols = rendered_columns t [hd rs]"
    by (simp add: cols_def rendered_columns_def split: option.splits)
  have fm: "\<forall>c\<in>set cols. \<forall>r\<in>set (h a). returns (format H t c r)"
    unfolding cols using cl hd by blast
  have f1: "\<forall>c\<in>set cols. returns (format H t c (hd rs))"
    using fm hd by blast
  have c0: "returns (colStyles H t (hd rs) cols)"
    by (rule colStyles_returns [OF f1])
  have ce: "colStyles H t1 (hd rs) cols = colStyles H t (hd rs) cols"
    by (rule colStyles_cong) (simp_all add: t1_def)
  obtain styles where st: "colStyles H t1 (hd rs) cols = Inr styles"
    using c0 ce by (auto simp: returns_iff)
  have len: "length styles = length cols" using st by (rule colStyles_length)
  have mf: "map fst (zip cols styles) = cols" using len by simp
  have "\<forall>c\<in>set (rendered_columns t [hd rs]). returns (columnName H t c)"
    using cl hd by blast
  then have n1: "\<forall>c\<in>set (map fst (zip cols styles)). returns (columnName H t c)"
    unfolding mf by (simp only: cols)
  have h0: "returns (header_cells H t (zip cols styles))"
    by (rule header_cells_returns [OF n1])
  have he: "header_cells H t1 (zip cols styles) = header_cells H t (zip cols styles)"
    by (rule header_cells_cong) (simp add: t1_def)
  obtain ths where th: "header_cells H t1 (zip cols styles) = Inr ths"
    using h0 he by (auto simp: returns_iff)
  have lt: "length (thead (t1\<lparr>thead := ths\<rparr>)) = length cols"
    using header_cells_length [OF th] len by simp
  have tk1: "\<forall>so. sortOptions (t1\<lparr>thead := ths\<rparr>) = Some so
      \<longrightarrow> valid_token (to_string H (get so (js ''order'')))"
    using tk by (simp add: t1_def)
  have "returns (sort_indicator H (t1\<lparr>thead := ths\<rparr>) cols)"
    by (rule sort_indicator_returns [OF lt tk1])
  then obtain ths' where th': "sort_indicator H (t1\<lparr>thead := ths\<rparr>) cols = Inr ths'"
    by (auto simp: returns_iff)
  have fe: "formatters (t1\<lparr>thead := ths'\<rparr>) = formatters t" by (simp add: t1_def)
  have "\<forall>r\<in>set rs. returns (row_cells H (t1\<lparr>thead := ths'\<rparr>) r (zip cols styles))"
  proof
    fix r assume "r \<in> set rs"
    then have "r \<in> set (h a)" by (simp only: set_rs)
    then have "\<forall>c\<in>set (map fst (zip cols styles)). returns (format H t c r)"
      unfolding mf using fm by blast
    then have "returns (row_cells H t r (zip cols styles))"
      by (rule row_cells_returns)
    then show "returns (row_cells H (t1\<lparr>thead := ths'\<rparr>) r (zip cols styles))"
      using row_cells_cong [OF fe, of H r "zip cols styles"] by simp
  qed
  then have "returns (body_rows H (t1\<lparr>thead := ths'\<rparr>) f (zip cols styles)
       (Math_min (Fin (of_nat (length rs))) (to_number H (pageSize t))) 0 rs)"
    by (rule body_rows_returns)
  then obtain trs where bd: "body_rows H (t1\<lparr>thead := ths'\<rparr>) f (zip cols styles)
       (Math_min (Fin (of_nat (length rs))) (to_number H (pageSize t))) 0 rs = Inr trs"
    by (auto simp: returns_iff)
  show ?thesis by (simp add: unf st th th' bd)
qed


lemma default_table [simp]:
  "columnNames (table_with so ps) = EmptyArray"
  "columns (table_with so ps) = None"
  "pageSize (table_with so ps) = (if truthy ps then ps else JNum (Fin 30))"
  "sortOptions (table_with so ps) = so"
  "clickableColumns (table_with so ps) = []"
  "formatters (table_with so ps) = Map.empty"
  "tbody (table_with so ps) = []"
  "thead (table_with so ps) = []"
  by (simp_all add: table_with_def constructor_def)

text \<open>The column keys of the examples are no inherited member.\<close>

lemma own_names:
  "js ''a'' \<notin> set object_prototype_members" "js ''a'' \<notin> set array_prototype_members"
  "js ''c'' \<notin> set object_prototype_members" "js ''c'' \<notin> set array_prototype_members"
  "js ''views'' \<notin> set object_prototype_members"
  "js ''views'' \<notin> set array_prototype_members"
  "js ''a--b'' \<notin> set object_prototype_members"
  "js ''a--b'' \<notin> set array_prototype_members"
  by (simp_all add: object_prototype_members_def array_prototype_members_def js_def)

lemma no_member:
  "length c < 2 \<or> 45 \<in> set c \<Longrightarrow> c \<notin> set object_prototype_members"
  "length c < 2 \<or> 45 \<in> set c \<Longrightarrow> c \<notin> set array_prototype_members"
  by (auto simp: object_prototype_members_def array_prototype_members_def js_def)

lemma default_format:
  "c \<notin> set object_prototype_members \<Longrightarrow>
     format H (table_with so ps) c r = Inr (to_string H (get r c))"
  by (simp add: format_plain)

lemma default_columnName:
  "c \<notin> set object_prototype_members \<Longrightarrow> c \<notin> set array_prototype_members \<Longrightarrow>
     columnName H (table_with so ps) c = formatColumnName H c"
  by (simp add: columnName_def)

lemma default_columnName_views: "returns (columnName H (table_with so ps) (js ''views''))"
  by (simp add: default_columnName own_names)
     (simp add: formatColumnName_def replace_at_end_def toUpperCase_def js_def returns_def)

lemma default_columnName_a: "columnName H (table_with so ps) (js ''a'') = Inr (js ''A'')"
  by (simp add: default_columnName own_names)
     (simp add: formatColumnName_def replace_at_end_def toUpperCase_def js_def)

lemma default_columnName_c: "columnName H (table_with so ps) (js ''c'') = Inr (js ''C'')"
  by (simp add: default_columnName own_names)
     (simp add: formatColumnName_def replace_at_end_def toUpperCase_def js_def)

text \<open>
  A column named like a member of \<^verbatim>\<open>Object.prototype\<close> has that member for its
  formatter: the render of \<^verbatim>\<open>[{ __defineGetter__: 5 }]\<close> raises a \<^verbatim>\<open>TypeError\<close>.
  A column named like a member of \<^verbatim>\<open>Array.prototype\<close> has that member for its
  name in a table with no configured names.
\<close>

lemma format_defineGetter:
  "formatters t = Map.empty \<Longrightarrow> format H t (js ''__defineGetter__'') r = Inl TypeError"
  by (simp add: format_def object_prototype_members_def js_def)

lemma renderRows_defineGetter:
  fixes H :: host
  shows "snd (snd (renderRows H (table_with None JUndefined)
                (\<lambda>_. [row_of (js ''__defineGetter__'') (JNum (Fin 5))]) 0 None)) = Some TypeError"
proof -
  let ?h = "(\<lambda>_. [row_of (js ''__defineGetter__'') (JNum (Fin 5))]) :: heap"
  have ne: "?h 0 \<noteq> []" by simp
  show ?thesis
    by (subst renderRows_unfold [where h = ?h and a = 0, OF ne])
       (simp add: sorted_rows_def rendered_columns_def row_of_def format_defineGetter)
qed

lemma columnName_values:
  "columnName H (table_with so ps) (js ''values'') = Inr (functionText H (js ''values''))"
  by (simp add: columnName_def object_prototype_members_def array_prototype_members_def
      inherited_text_def js_def)


section \<open>Rendering an empty sequence\<close>

text \<open>
  Claim C8. \<^verbatim>\<open>renderRows\<close> with an empty row sequence clears the rendered body,
  leaves the header as it was rendered before and returns without raising, whatever the
  prior state of the component. The call keeps the reference to the sequence and
  changes nothing else: the header cells and the rendered columns stay.
\<close>

theorem renderRows_empty:
  "h a = [] \<Longrightarrow> renderRows H t h a f = (t\<lparr>rows := Some a, tbody := []\<rparr>, h, None)"
  by (simp add: renderRows_def)

theorem renderRows_empty_witness:
  "\<forall>H. (\<lambda>_. []) (0::nat) = ([] :: jsobj list)
     \<and> renderRows H ((table_with None JUndefined)
            \<lparr>thead := [\<lparr>th_class = None, th_column = js ''a'', th_name = js ''A'', th_sort = None\<rparr>],
             tbody := [\<lparr>tr_i = 0, tr_class = None,
                        tr_cells = [\<lparr>td_class = None, td_column = js ''a'', td_value = js ''x''\<rparr>]\<rparr>]\<rparr>)
          (\<lambda>_. []) 0 None
       = ((table_with None JUndefined)
            \<lparr>thead := [\<lparr>th_class = None, th_column = js ''a'', th_name = js ''A'', th_sort = None\<rparr>],
             tbody := [], rows := Some 0\<rparr>,
          (\<lambda>_. []), None)"
proof
  fix H
  have e: "(\<lambda>_. []) (0::nat) = ([] :: jsobj list)" by simp
  show "(\<lambda>_. []) (0::nat) = ([] :: jsobj list)
     \<and> renderRows H ((table_with None JUndefined)
            \<lparr>thead := [\<lparr>th_class = None, th_column = js ''a'', th_name = js ''A'', th_sort = None\<rparr>],
             tbody := [\<lparr>tr_i = 0, tr_class = None,
                        tr_cells = [\<lparr>td_class = None, td_column = js ''a'', td_value = js ''x''\<rparr>]\<rparr>]\<rparr>)
          (\<lambda>_. []) 0 None
       = ((table_with None JUndefined)
            \<lparr>thead := [\<lparr>th_class = None, th_column = js ''a'', th_name = js ''A'', th_sort = None\<rparr>],
             tbody := [], rows := Some 0\<rparr>,
          (\<lambda>_. []), None)"
    using renderRows_empty [of "\<lambda>_. []" 0 H _ None, OF e] by simp
qed


section \<open>The order of the rows\<close>

lemma sorted_wrt_index:
  assumes "sorted_wrt P xs" and "i < length xs" and "j < length xs" and "Q (xs ! i) (xs ! j)"
    and "\<And>x. \<not> Q x x" and "\<And>x y. P x y \<Longrightarrow> \<not> Q y x"
  shows "i < j"
proof (rule ccontr)
  assume "\<not> i < j"
  then consider "i = j" | "j < i" by linarith
  then show False
  proof cases
    case 1
    then show False using assms(4,5) by simp
  next
    case 2
    then have "P (xs ! j) (xs ! i)" using assms(1,2) by (simp add: sorted_wrt_iff_nth_less)
    then show False using assms(4,6) by blast
  qed
qed

lemma js_lt_irrefl: "\<not> js_lt H v v"
  using js_lt_asym [of H v v] by blast


text \<open>
  Claim C3. After a render with the sort state \<^verbatim>\<open>{ column: c, order: "asc" }\<close> a row
  with the smaller value in \<^verbatim>\<open>c\<close> comes no later than a row with the larger one, for
  every non-empty row sequence. The comparison function answers 0 for every pair with a
  value that is \<^verbatim>\<open>NaN\<close> as a number, \<^verbatim>\<open>undefined\<close> included, and the sort then
  takes the rows around such a value for equal. The rows with the values 2,
  \<^verbatim>\<open>NaN\<close>, 1 stay in this order: the row with 1 comes after the row with 2.
\<close>

theorem renderRows_nan_unsorted:
  "\<forall>H. fst (snd (renderRows H (table_with (Some (sort_state (js ''c'') (js ''asc''))) JUndefined)
              (\<lambda>_. [row_of (js ''c'') (JNum (Fin 2)), row_of (js ''c'') (JNum NaN),
                      row_of (js ''c'') (JNum (Fin 1))]) 0 None)) 0
         = [row_of (js ''c'') (JNum (Fin 2)), row_of (js ''c'') (JNum NaN),
            row_of (js ''c'') (JNum (Fin 1))]
       \<and> js_lt H (get (row_of (js ''c'') (JNum (Fin 1))) (js ''c''))
                  (get (row_of (js ''c'') (JNum (Fin 2))) (js ''c''))
       \<and> snd (snd (renderRows H (table_with (Some (sort_state (js ''c'') (js ''asc''))) JUndefined)
              (\<lambda>_. [row_of (js ''c'') (JNum (Fin 2)), row_of (js ''c'') (JNum NaN),
                      row_of (js ''c'') (JNum (Fin 1))]) 0 None)) = None"
proof
  fix H
  let ?t = "table_with (Some (sort_state (js ''c'') (js ''asc''))) JUndefined"
  let ?rs = "[row_of (js ''c'') (JNum (Fin 2)), row_of (js ''c'') (JNum NaN),
              row_of (js ''c'') (JNum (Fin 1))]"
  let ?h = "(\<lambda>_. ?rs) :: heap"
  have ne: "?h 0 \<noteq> []" by simp
  have "sorted_rows H ?t ?rs = ?rs"
    by (simp add: sorted_rows_def array_sort_def comparator_def compare_def sort_state_def
        get_def read_def to_primitive_def row_of_def js_def Let_def)
  then have 1: "fst (snd (renderRows H ?t ?h 0 None)) 0 = ?rs"
    using renderRows_store(1) [where h = ?h and a = 0, OF ne, of H ?t None] by simp
  have 2: "js_lt H (get (row_of (js ''c'') (JNum (Fin 1))) (js ''c''))
                  (get (row_of (js ''c'') (JNum (Fin 2))) (js ''c''))"
    by (simp add: get_def row_of_def)
  have 3: "snd (snd (renderRows H ?t ?h 0 None)) = None"
  proof (rule renderRows_completes [where h = ?h and a = 0, OF ne])
    show "\<forall>r\<in>set (?h 0). \<forall>c\<in>set (rendered_columns ?t [r]).
            returns (columnName H ?t c) \<and> (\<forall>r'\<in>set (?h 0). returns (format H ?t c r'))"
      by (simp add: rendered_columns_def row_of_def default_columnName_c default_format
          own_names returns_def)
    show "\<forall>so. sortOptions ?t = Some so \<longrightarrow> valid_token (to_string H (get so (js ''order'')))"
      by (simp add: sort_state_def get_def js_def valid_token_def white_space_def)
  qed
  show "fst (snd (renderRows H ?t ?h 0 None)) 0 = ?rs
       \<and> js_lt H (get (row_of (js ''c'') (JNum (Fin 1))) (js ''c''))
                  (get (row_of (js ''c'') (JNum (Fin 2))) (js ''c''))
       \<and> snd (snd (renderRows H ?t ?h 0 None)) = None"
    using 1 2 3 by blast
qed


text \<open>
  Claim C3, amended. Let the values of column \<^verbatim>\<open>c\<close> in a non-empty row sequence be
  all strings, or none of them a string and none of them \<^verbatim>\<open>NaN\<close> as a number. A
  render with the sort state \<^verbatim>\<open>{ column: c, order: "asc" }\<close> reorders the caller's
  sequence in place (the component keeps the reference, the rows are the same ones) so
  that a row whose raw value in \<^verbatim>\<open>c\<close> is smaller stands before every row whose value
  is larger; with \<^verbatim>\<open>"desc"\<close> it stands after. The comparison reads the raw values,
  not the formatted ones. When the render raises nothing, the body rows follow this
  order: body row \<open>k\<close> shows row \<open>k\<close> of the reordered sequence.
\<close>

theorem renderRows_sorted:
  fixes H :: host and t :: datatable and h :: heap and a :: addr
    and f :: "(jsobj \<Rightarrow> bool) option"
  assumes ne: "h a \<noteq> []"
    and so: "sortOptions t = Some so" "get so (js ''column'') = JStr c"
    and cmp: "comparable H (map (\<lambda>r. get r c) (h a))"
  defines "rs \<equiv> fst (snd (renderRows H t h a f)) a"
  shows "rows (fst (renderRows H t h a f)) = Some a
       \<and> mset rs = mset (h a)
       \<and> (get so (js ''order'') = JStr (js ''asc'') \<longrightarrow>
            (\<forall>i j. i < length rs \<and> j < length rs \<and> js_lt H (get (rs ! i) c) (get (rs ! j) c)
                   \<longrightarrow> i < j))
       \<and> (get so (js ''order'') = JStr (js ''desc'') \<longrightarrow>
            (\<forall>i j. i < length rs \<and> j < length rs \<and> js_lt H (get (rs ! i) c) (get (rs ! j) c)
                   \<longrightarrow> j < i))
       \<and> (snd (snd (renderRows H t h a f)) = None \<longrightarrow>
            (\<forall>k<length (tbody (fst (renderRows H t h a f))).
               tr_i (tbody (fst (renderRows H t h a f)) ! k) = k
               \<and> cells_of H t (rendered_columns t rs) (rs ! k)
                    (tr_cells (tbody (fst (renderRows H t h a f)) ! k))))"
proof -
  have rs: "rs = array_sort (comparator H so) (h a)"
    unfolding rs_def using renderRows_store(1) [where h = h and a = a, OF ne, of H t f] so(1)
    by (simp add: sorted_rows_def)
  have 1: "rows (fst (renderRows H t h a f)) = Some a"
    by (rule renderRows_store(2) [where h = h and a = a, OF ne])
  have 2: "mset rs = mset (h a)" by (simp add: rs mset_array_sort)
  have 3: "i < j" if "get so (js ''order'') = JStr (js ''asc'')"
    "i < length rs" "j < length rs" "js_lt H (get (rs ! i) c) (get (rs ! j) c)" for i j
  proof -
    have "sorted_wrt (\<lambda>x y. \<not> js_lt H (get y c) (get x c)) rs"
      unfolding rs comparator_column(1) [OF so(2) cmp that(1)]
      by (rule array_sort_ascending [OF cmp])
    then show ?thesis
      by (rule sorted_wrt_index [where Q = "\<lambda>x y. js_lt H (get x c) (get y c)",
            OF _ that(2) that(3) that(4)])
         (simp_all add: js_lt_irrefl)
  qed
  have 4: "j < i" if "get so (js ''order'') = JStr (js ''desc'')"
    "i < length rs" "j < length rs" "js_lt H (get (rs ! i) c) (get (rs ! j) c)" for i j
  proof -
    have d: "js ''desc'' \<noteq> js ''asc''" by (simp add: js_def)
    have "sorted_wrt (\<lambda>x y. \<not> js_lt H (get x c) (get y c)) rs"
      unfolding rs comparator_column(2) [OF so(2) cmp that(1) d]
      by (rule array_sort_descending [OF cmp])
    then show ?thesis
      by (rule sorted_wrt_index [where Q = "\<lambda>x y. js_lt H (get y c) (get x c)",
            OF _ that(3) that(2) that(4)])
         (simp_all add: js_lt_irrefl)
  qed
  have 5: "\<forall>k<length (tbody (fst (renderRows H t h a f))).
               tr_i (tbody (fst (renderRows H t h a f)) ! k) = k
               \<and> cells_of H t (rendered_columns t rs) (rs ! k)
                    (tr_cells (tbody (fst (renderRows H t h a f)) ! k))"
    if "snd (snd (renderRows H t h a f)) = None"
    using renderRows_body(2) [where h = h and a = a, OF ne that] so(1)
    by (simp add: rs sorted_rows_def)
  show ?thesis using 1 2 3 4 5 by blast
qed

theorem renderRows_sorted_witness:
  "\<forall>H. (\<lambda>_. [row_of (js ''views'') (JNum (Fin 20)), row_of (js ''views'') (JNum (Fin 10))])
          (0::nat) \<noteq> []
     \<and> sortOptions (table_with (Some (sort_state (js ''views'') (js ''asc''))) JUndefined)
          = Some (sort_state (js ''views'') (js ''asc''))
     \<and> get (sort_state (js ''views'') (js ''asc'')) (js ''column'') = JStr (js ''views'')
     \<and> comparable H (map (\<lambda>r. get r (js ''views''))
          [row_of (js ''views'') (JNum (Fin 20)), row_of (js ''views'') (JNum (Fin 10))])
     \<and> rows (fst (renderRows H (table_with (Some (sort_state (js ''views'') (js ''asc''))) JUndefined)
          (\<lambda>_. [row_of (js ''views'') (JNum (Fin 20)), row_of (js ''views'') (JNum (Fin 10))])
          0 None)) = Some 0
     \<and> fst (snd (renderRows H (table_with (Some (sort_state (js ''views'') (js ''asc''))) JUndefined)
          (\<lambda>_. [row_of (js ''views'') (JNum (Fin 20)), row_of (js ''views'') (JNum (Fin 10))])
          0 None)) 0
        = [row_of (js ''views'') (JNum (Fin 10)), row_of (js ''views'') (JNum (Fin 20))]"
proof
  fix H
  let ?so = "sort_state (js ''views'') (js ''asc'')"
  let ?t = "table_with (Some ?so) JUndefined"
  let ?r20 = "row_of (js ''views'') (JNum (Fin 20))"
  let ?r10 = "row_of (js ''views'') (JNum (Fin 10))"
  let ?h = "(\<lambda>_. [?r20, ?r10]) :: heap"
  let ?rs = "fst (snd (renderRows H ?t ?h 0 None)) 0"
  have ne: "?h 0 \<noteq> []" by simp
  have so: "sortOptions ?t = Some ?so" by simp
  have col: "get ?so (js ''column'') = JStr (js ''views'')"
    by (simp add: sort_state_def get_def js_def)
  have ord: "get ?so (js ''order'') = JStr (js ''asc'')"
    by (simp add: sort_state_def get_def js_def)
  have cmp: "comparable H (map (\<lambda>r. get r (js ''views'')) (?h 0))"
    by (simp add: comparable_def get_def row_of_def)
  note srt = renderRows_sorted [where h = ?h and a = 0 and t = ?t and H = H and f = None,
      OF ne so col cmp]
  have r: "rows (fst (renderRows H ?t ?h 0 None)) = Some 0" using srt by blast
  have "sorted_rows H ?t [?r20, ?r10] = [?r10, ?r20]"
    by (simp add: sorted_rows_def array_sort_def comparator_def compare_def sort_state_def
        get_def read_def to_primitive_def row_of_def js_def Let_def)
  then have "?rs = [?r10, ?r20]"
    using renderRows_store(1) [where h = ?h and a = 0, OF ne, of H ?t None] by simp
  then show "?h 0 \<noteq> [] \<and> sortOptions ?t = Some ?so
     \<and> get ?so (js ''column'') = JStr (js ''views'')
     \<and> comparable H (map (\<lambda>r. get r (js ''views'')) [?r20, ?r10])
     \<and> rows (fst (renderRows H ?t ?h 0 None)) = Some 0
     \<and> ?rs = [?r10, ?r20]"
    using ne so col cmp r by simp
qed


section \<open>The page\<close>

text \<open>
  Claim C9. For every non-empty row sequence of length \<open>n\<close>, \<^verbatim>\<open>renderRows\<close>
  produces exactly \<open>min n pageSize\<close> body rows, the first entries of the sequence
  after the sort. A render can end before the body is written: a column key with an
  empty segment, such as \<^verbatim>\<open>a--b\<close>, has no humanized name, and the call raises a
  \<^verbatim>\<open>TypeError\<close> with no body row for the one row given. And the page size is kept
  as configured: with the page size \<open>-1\<close> the loop never runs, and one row gives no
  body row.
\<close>

theorem renderRows_page_counterexample:
  "\<forall>H. snd (snd (renderRows H (table_with None (JNum (Fin (- 1))))
                  (\<lambda>_. [row_of (js ''a'') (JStr (js ''x''))]) 0 None)) = None
     \<and> tbody (fst (renderRows H (table_with None (JNum (Fin (- 1))))
                  (\<lambda>_. [row_of (js ''a'') (JStr (js ''x''))]) 0 None)) = []
     \<and> snd (snd (renderRows H (table_with None (JNum (Fin 30)))
                  (\<lambda>_. [row_of (js ''a--b'') (JStr (js ''x''))]) 0 None)) = Some TypeError
     \<and> tbody (fst (renderRows H (table_with None (JNum (Fin 30)))
                  (\<lambda>_. [row_of (js ''a--b'') (JStr (js ''x''))]) 0 None)) = []"
proof
  fix H
  let ?h1 = "(\<lambda>_. [row_of (js ''a'') (JStr (js ''x''))]) :: heap"
  let ?h2 = "(\<lambda>_. [row_of (js ''a--b'') (JStr (js ''x''))]) :: heap"
  have ne1: "?h1 0 \<noteq> []" and ne2: "?h2 0 \<noteq> []" by simp_all
  have n: "\<not> isNumeric [120]"
    by (simp add: isNumeric_def numeric_char_def is_digit_def)
  have 1: "renderRows H (table_with None (JNum (Fin (- 1)))) ?h1 0 None =
      ((table_with None (JNum (Fin (- 1))))
         \<lparr>rows := Some 0, renderedColumns := Some [js ''a''],
          thead := [\<lparr>th_class = None, th_column = js ''a'', th_name = js ''A'', th_sort = None\<rparr>],
          tbody := []\<rparr>, ?h1, None)"
    by (subst renderRows_unfold [where h = ?h1 and a = 0, OF ne1])
       (simp add: sorted_rows_def rendered_columns_def row_of_def format_plain columnName_def
        no_member get_def n formatColumnName_def replace_at_end_def toUpperCase_def
        sort_indicator_def Math_min_def fun_upd_idem_iff js_def)
  have 2: "renderRows H (table_with None (JNum (Fin 30))) ?h2 0 None =
      ((table_with None (JNum (Fin 30)))
         \<lparr>rows := Some 0, renderedColumns := Some [js ''a--b'']\<rparr>, ?h2, Some TypeError)"
    by (subst renderRows_unfold [where h = ?h2 and a = 0, OF ne2])
       (simp add: sorted_rows_def rendered_columns_def row_of_def format_plain columnName_def
        no_member get_def n formatColumnName_def replace_at_end_def toUpperCase_def
        fun_upd_idem_iff js_def)
  show "snd (snd (renderRows H (table_with None (JNum (Fin (- 1)))) ?h1 0 None)) = None
     \<and> tbody (fst (renderRows H (table_with None (JNum (Fin (- 1)))) ?h1 0 None)) = []
     \<and> snd (snd (renderRows H (table_with None (JNum (Fin 30))) ?h2 0 None)) = Some TypeError
     \<and> tbody (fst (renderRows H (table_with None (JNum (Fin 30))) ?h2 0 None)) = []"
    unfolding 1 2 by simp
qed


text \<open>
  Claim C9, amended. Let the page size be a natural number \<open>p\<close>, and let the render
  of a non-empty row sequence of length \<open>n\<close> meet nothing that raises: whichever row
  comes first after the sort, each of the columns to render then has a name (a
  configured or an inherited one, or a key without an empty segment) and the formatter
  of the column, configured or inherited, raises on no row; and the order of the sort
  state is a class token. Then \<^verbatim>\<open>renderRows\<close> raises nothing and produces exactly
  \<open>min n p\<close> body rows, where body row \<open>k\<close> carries the index \<open>k\<close>; the rows
  beyond the page size are left out, and 50 rows with the page size 30 give 30 body
  rows. When the order after the sort is determined (no sort state, or values of the
  sort column that the comparison orders consistently), body row \<open>k\<close> shows row
  \<open>k\<close> of the sequence after the sort, which is what the caller's array then holds.
\<close>

theorem renderRows_page:
  fixes H :: host and t :: datatable and h :: heap and a :: addr
    and f :: "(jsobj \<Rightarrow> bool) option"
  assumes ne: "h a \<noteq> []"
    and ps: "pageSize t = JNum (Fin (of_nat p))"
    and cl: "\<forall>r\<in>set (h a). \<forall>c\<in>set (rendered_columns t [r]).
                returns (columnName H t c) \<and> (\<forall>r'\<in>set (h a). returns (format H t c r'))"
    and tk: "\<forall>so. sortOptions t = Some so \<longrightarrow> valid_token (to_string H (get so (js ''order'')))"
  defines "rs \<equiv> sorted_rows H t (h a)"
  defines "body \<equiv> tbody (fst (renderRows H t h a f))"
  shows "snd (snd (renderRows H t h a f)) = None
       \<and> length body = min (length (h a)) p
       \<and> (\<forall>k<min (length (h a)) p. tr_i (body ! k) = k)
       \<and> (sort_determined H t (h a) \<longrightarrow>
             fst (snd (renderRows H t h a f)) = h(a := rs)
             \<and> (\<forall>k<min (length (h a)) p.
                   cells_of H t (rendered_columns t rs) (rs ! k) (tr_cells (body ! k))))"
proof -
  have ok: "snd (snd (renderRows H t h a f)) = None"
    by (rule renderRows_completes [where h = h and a = a, OF ne cl tk])
  have st: "fst (snd (renderRows H t h a f)) = h(a := rs)"
    unfolding rs_def by (rule renderRows_store(1) [where h = h and a = a, OF ne])
  have len: "length body = min (length (h a)) p"
    unfolding body_def by (rule renderRows_body(3) [where h = h and a = a, OF ne ok ps])
  have "\<forall>k<length body. tr_i (body ! k) = k
           \<and> cells_of H t (rendered_columns t rs) (rs ! k) (tr_cells (body ! k))"
    unfolding body_def rs_def by (rule renderRows_body(2) [where h = h and a = a, OF ne ok])
  then show ?thesis using ok st len by simp
qed

theorem renderRows_page_witness:
  "\<forall>H. (\<lambda>_. replicate 50 (row_of (js ''views'') (JNum (Fin 1)))) (0::nat) \<noteq> []
     \<and> pageSize (table_with (Some (sort_state (js ''views'') (js ''desc''))) (JNum (Fin 30)))
          = JNum (Fin (of_nat 30))
     \<and> returns (columnName H (table_with (Some (sort_state (js ''views'') (js ''desc'')))
                                  (JNum (Fin 30))) (js ''views''))
     \<and> returns (format H (table_with (Some (sort_state (js ''views'') (js ''desc'')))
                              (JNum (Fin 30))) (js ''views'') (row_of (js ''views'') (JNum (Fin 1))))
     \<and> valid_token (js ''desc'')
     \<and> sort_determined H (table_with (Some (sort_state (js ''views'') (js ''desc'')))
                                      (JNum (Fin 30)))
          (replicate 50 (row_of (js ''views'') (JNum (Fin 1))))
     \<and> snd (snd (renderRows H (table_with (Some (sort_state (js ''views'') (js ''desc'')))
                                  (JNum (Fin 30)))
                  (\<lambda>_. replicate 50 (row_of (js ''views'') (JNum (Fin 1)))) 0 None)) = None
     \<and> length (tbody (fst (renderRows H (table_with (Some (sort_state (js ''views'') (js ''desc'')))
                                  (JNum (Fin 30)))
                  (\<lambda>_. replicate 50 (row_of (js ''views'') (JNum (Fin 1)))) 0 None))) = 30
     \<and> tr_i (tbody (fst (renderRows H (table_with (Some (sort_state (js ''views'') (js ''desc'')))
                                  (JNum (Fin 30)))
                  (\<lambda>_. replicate 50 (row_of (js ''views'') (JNum (Fin 1)))) 0 None)) ! 29) = 29
     \<and> map td_value (tr_cells (tbody (fst (renderRows H
                  (table_with (Some (sort_state (js ''views'') (js ''desc''))) (JNum (Fin 30)))
                  (\<lambda>_. replicate 50 (row_of (js ''views'') (JNum (Fin 1)))) 0 None)) ! 29))
        = [to_string H (JNum (Fin 1))]"
proof
  fix H
  let ?t = "table_with (Some (sort_state (js ''views'') (js ''desc''))) (JNum (Fin 30))"
  let ?r = "row_of (js ''views'') (JNum (Fin 1))"
  let ?h = "(\<lambda>_. replicate 50 ?r) :: heap"
  let ?body = "tbody (fst (renderRows H ?t ?h 0 None))"
  have ne: "?h 0 \<noteq> []" by simp
  have ps: "pageSize ?t = JNum (Fin (of_nat 30))" by simp
  have nm: "returns (columnName H ?t (js ''views''))" by (rule default_columnName_views)
  have fv: "format H ?t (js ''views'') ?r = Inr (to_string H (JNum (Fin 1)))"
    by (simp add: default_format own_names get_def row_of_def)
  then have fm: "returns (format H ?t (js ''views'') ?r)" by (simp add: returns_def)
  have tk: "valid_token (js ''desc'')" by (simp add: valid_token_def white_space_def js_def)
  have cl: "\<forall>r\<in>set (?h 0). \<forall>c\<in>set (rendered_columns ?t [r]).
              returns (columnName H ?t c) \<and> (\<forall>r'\<in>set (?h 0). returns (format H ?t c r'))"
    using nm fm by (simp add: rendered_columns_def row_of_def)
  have tk': "\<forall>so. sortOptions ?t = Some so \<longrightarrow> valid_token (to_string H (get so (js ''order'')))"
    using tk by (simp add: sort_state_def get_def js_def)
  have sd: "sort_determined H ?t (replicate 50 ?r)"
    by (simp add: sort_determined_def comparable_def sort_state_def get_def row_of_def js_def
        list_all_iff)
  note page = renderRows_page [where h = ?h and a = 0 and t = ?t and H = H and f = None
      and p = 30, OF ne ps cl tk']
  have ok: "snd (snd (renderRows H ?t ?h 0 None)) = None" using page by blast
  have len: "length ?body = 30" using page by simp
  have idx: "tr_i (?body ! 29) = 29" using page by simp
  have st: "fst (snd (renderRows H ?t ?h 0 None)) 0 = sorted_rows H ?t (replicate 50 ?r)"
    using page sd by simp
  have "mset (sorted_rows H ?t (replicate 50 ?r)) = mset (replicate 50 ?r)"
    by (simp add: sorted_rows_def mset_array_sort)
  then have set: "set (sorted_rows H ?t (replicate 50 ?r)) = set (replicate 50 ?r)"
    by (rule mset_eq_setD)
  have l50: "length (sorted_rows H ?t (replicate 50 ?r)) = 50"
    by (simp add: sorted_rows_def length_array_sort)
  have r29: "sorted_rows H ?t (replicate 50 ?r) ! 29 = ?r"
  proof -
    have "sorted_rows H ?t (replicate 50 ?r) ! 29 \<in> set (sorted_rows H ?t (replicate 50 ?r))"
      using l50 by (intro nth_mem) simp
    then show ?thesis unfolding set by simp
  qed
  have hd: "hd (sorted_rows H ?t (replicate 50 ?r)) = ?r"
  proof -
    have "sorted_rows H ?t (replicate 50 ?r) \<noteq> []" using l50 by auto
    then have "hd (sorted_rows H ?t (replicate 50 ?r)) \<in> set (sorted_rows H ?t (replicate 50 ?r))"
      by (rule hd_in_set)
    then show ?thesis unfolding set by simp
  qed
  have cols: "rendered_columns ?t (sorted_rows H ?t (replicate 50 ?r)) = [js ''views'']"
    by (simp add: rendered_columns_def hd) (simp add: row_of_def)
  have "\<forall>k<min (length (?h 0)) 30.
          cells_of H ?t (rendered_columns ?t (sorted_rows H ?t (?h 0)))
            (sorted_rows H ?t (?h 0) ! k) (tr_cells (?body ! k))"
    using page sd by blast
  then have "cells_of H ?t (rendered_columns ?t (sorted_rows H ?t (?h 0)))
            (sorted_rows H ?t (?h 0) ! 29) (tr_cells (?body ! 29))"
    by simp
  then have "cells_of H ?t [js ''views''] ?r (tr_cells (?body ! 29))"
    using cols r29 by simp
  then have cells: "map td_value (tr_cells (?body ! 29)) = [to_string H (JNum (Fin 1))]"
    unfolding cells_of_def fv [symmetric]
    by (cases "tr_cells (?body ! 29)") (auto simp: fv)
  show "?h 0 \<noteq> [] \<and> pageSize ?t = JNum (Fin (of_nat 30))
     \<and> returns (columnName H ?t (js ''views''))
     \<and> returns (format H ?t (js ''views'') ?r)
     \<and> valid_token (js ''desc'')
     \<and> sort_determined H ?t (replicate 50 ?r)
     \<and> snd (snd (renderRows H ?t ?h 0 None)) = None
     \<and> length ?body = 30
     \<and> tr_i (?body ! 29) = 29
     \<and> map td_value (tr_cells (?body ! 29)) = [to_string H (JNum (Fin 1))]"
    using ne ps nm fm tk sd ok len idx cells by simp
qed


section \<open>The page size of the constructor\<close>

text \<open>The page size of a component is never falsy, so never 0.\<close>

lemma constructor_pageSize_truthy: "truthy (pageSize (constructor opts))"
  by (simp add: constructor_def)


text \<open>
  Claim C10. A configuration with a falsy \<^verbatim>\<open>pageSize\<close> gives the page size 30, so
  that no \<^verbatim>\<open>pageSize\<close> can make the table render zero body rows. The constructor
  keeps every truthy value, a negative one too: with \<^verbatim>\<open>pageSize: -5\<close> a render of
  two rows writes the header and no body row.
\<close>

theorem constructor_pageSize_negative:
  "\<forall>H. pageSize (table_with None (JNum (Fin (- 5)))) = JNum (Fin (- 5))
     \<and> snd (snd (renderRows H (table_with None (JNum (Fin (- 5))))
                  (\<lambda>_. [row_of (js ''a'') (JStr (js ''x'')), row_of (js ''a'') (JStr (js ''y''))])
                  0 None)) = None
     \<and> tbody (fst (renderRows H (table_with None (JNum (Fin (- 5))))
                  (\<lambda>_. [row_of (js ''a'') (JStr (js ''x'')), row_of (js ''a'') (JStr (js ''y''))])
                  0 None)) = []"
proof
  fix H
  let ?h = "(\<lambda>_. [row_of (js ''a'') (JStr (js ''x'')), row_of (js ''a'') (JStr (js ''y''))]) :: heap"
  have ne: "?h 0 \<noteq> []" by simp
  have n: "\<not> isNumeric [120]"
    by (simp add: isNumeric_def numeric_char_def is_digit_def)
  have 1: "renderRows H (table_with None (JNum (Fin (- 5)))) ?h 0 None =
      ((table_with None (JNum (Fin (- 5))))
         \<lparr>rows := Some 0, renderedColumns := Some [js ''a''],
          thead := [\<lparr>th_class = None, th_column = js ''a'', th_name = js ''A'', th_sort = None\<rparr>],
          tbody := []\<rparr>, ?h, None)"
    by (subst renderRows_unfold [where h = ?h and a = 0, OF ne])
       (simp add: sorted_rows_def rendered_columns_def row_of_def format_plain columnName_def
        no_member get_def n formatColumnName_def replace_at_end_def toUpperCase_def
        sort_indicator_def Math_min_def fun_upd_idem_iff js_def)
  show "pageSize (table_with None (JNum (Fin (- 5)))) = JNum (Fin (- 5))
     \<and> snd (snd (renderRows H (table_with None (JNum (Fin (- 5)))) ?h 0 None)) = None
     \<and> tbody (fst (renderRows H (table_with None (JNum (Fin (- 5)))) ?h 0 None)) = []"
    unfolding 1 by simp
qed


text \<open>
  Claim C10, amended. A configuration whose \<^verbatim>\<open>pageSize\<close> is 0 or any other falsy
  value gives a component with the page size 30, not 0; a falsy \<^verbatim>\<open>pageSize\<close>
  therefore cannot make the table render zero body rows: every render of a non-empty
  sequence of length \<open>n\<close> that raises nothing shows \<open>min n 30\<close> body rows, one at
  least.
\<close>

theorem constructor_pageSize:
  assumes "\<not> truthy (opt_pageSize opts)"
  shows "pageSize (constructor opts) = JNum (Fin 30)
       \<and> (\<forall>H h a f. h a \<noteq> [] \<and> snd (snd (renderRows H (constructor opts) h a f)) = None
             \<longrightarrow> length (tbody (fst (renderRows H (constructor opts) h a f)))
                   = min (length (h a)) 30
                 \<and> tbody (fst (renderRows H (constructor opts) h a f)) \<noteq> [])"
proof -
  have ps: "pageSize (constructor opts) = JNum (Fin (of_nat 30))"
    using assms by (simp add: constructor_def)
  have "length (tbody (fst (renderRows H (constructor opts) h a f))) = min (length (h a)) 30
        \<and> tbody (fst (renderRows H (constructor opts) h a f)) \<noteq> []"
    if "h a \<noteq> []" "snd (snd (renderRows H (constructor opts) h a f)) = None"
    for H :: host and h :: heap and a :: addr and f
  proof -
    have l: "length (tbody (fst (renderRows H (constructor opts) h a f))) = min (length (h a)) 30"
      by (rule renderRows_body(3) [where h = h and a = a, OF that ps])
    have "1 \<le> length (h a)" using that(1) by (cases "h a") simp_all
    then have "1 \<le> length (tbody (fst (renderRows H (constructor opts) h a f)))"
      unfolding l by simp
    then have "tbody (fst (renderRows H (constructor opts) h a f)) \<noteq> []" by auto
    then show ?thesis using l by simp
  qed
  then show ?thesis using ps by simp
qed

theorem constructor_pageSize_witness:
  "\<forall>H. \<not> truthy (JNum (Fin 0))
     \<and> pageSize (table_with None (JNum (Fin 0))) = JNum (Fin 30)
     \<and> (\<lambda>_. [row_of (js ''a'') (JStr (js ''x''))]) (0::nat) \<noteq> []
     \<and> snd (snd (renderRows H (table_with None (JNum (Fin 0)))
                  (\<lambda>_. [row_of (js ''a'') (JStr (js ''x''))]) 0 None)) = None
     \<and> length (tbody (fst (renderRows H (table_with None (JNum (Fin 0)))
                  (\<lambda>_. [row_of (js ''a'') (JStr (js ''x''))]) 0 None))) = 1"
proof
  fix H
  let ?opts = "\<lparr> opt_columnNames = None, opt_columns = None, opt_pageSize = JNum (Fin 0),
                 opt_sort = None, opt_clickableColumns = None, opt_formatters = None \<rparr>"
  let ?t = "table_with None (JNum (Fin 0))"
  let ?h = "(\<lambda>_. [row_of (js ''a'') (JStr (js ''x''))]) :: heap"
  have t: "?t = constructor ?opts" by (simp add: table_with_def)
  have f: "\<not> truthy (opt_pageSize ?opts)" by simp
  have ne: "?h 0 \<noteq> []" by simp
  have ok: "snd (snd (renderRows H ?t ?h 0 None)) = None"
  proof (rule renderRows_completes [where h = ?h and a = 0, OF ne])
    show "\<forall>r\<in>set (?h 0). \<forall>c\<in>set (rendered_columns ?t [r]).
            returns (columnName H ?t c) \<and> (\<forall>r'\<in>set (?h 0). returns (format H ?t c r'))"
      by (simp add: rendered_columns_def row_of_def default_columnName_a default_format
          own_names returns_def)
    show "\<forall>so. sortOptions ?t = Some so \<longrightarrow> valid_token (to_string H (get so (js ''order'')))"
      by simp
  qed
  show "\<not> truthy (JNum (Fin 0)) \<and> pageSize ?t = JNum (Fin 30) \<and> ?h 0 \<noteq> []
     \<and> snd (snd (renderRows H ?t ?h 0 None)) = None
     \<and> length (tbody (fst (renderRows H ?t ?h 0 None))) = 1"
    using f ne ok constructor_pageSize [OF f] unfolding t [symmetric] by simp
qed

end
